theory Spec2Isabelle
  imports
    Main
    "HOL-Library.Char_ord"
    "HOL-Library.List_Lexorder"
    "HOL-Library.Sublist"
    "HOL-Library.AList"
begin

section \<open>Values, dictionaries and exceptions\<close>

text \<open>
  The rows of the tariff service and the entries of the result store are JSON data.
  A JSON value is a \<open>jval\<close>; numbers are integers here (no claim below reads a
  fractional number). A Python \<open>dict\<close> is an association list in insertion order whose
  keys are distinct, as they are in every Python dictionary; \<open>d.get(k, dflt)\<close> is
  \<open>dict_get\<close>, \<open>d[k] = v\<close> is \<open>AList.update\<close> (an existing key keeps its place, a
  new key goes last). A string is a list of characters, each one code point below 256.
\<close>

datatype jval =
    JNull
  | JBool bool
  | JInt int
  | JStr string
  | JList "jval list"
  | JDict "(string \<times> jval) list"

type_synonym dict = "(string \<times> jval) list"

text \<open>
  \<open>APIError\<close> is the dataclass of \<open>usitc_mapping.py\<close> (message, status code, retries
  attempted). The other constructors are the built-in exceptions the modelled code can
  raise; each carries the text of \<open>str(e)\<close>.
\<close>

datatype exn =
    APIError (message: string) (status_code: "int option") (retries_attempted: int)
  | AttributeError string
  | ValueError string
  | TypeError string
  | UnicodeDecodeError string

fun py_truthy :: "jval \<Rightarrow> bool" where
  "py_truthy JNull = False"
| "py_truthy (JBool b) = b"
| "py_truthy (JInt n) = (n \<noteq> 0)"
| "py_truthy (JStr s) = (s \<noteq> [])"
| "py_truthy (JList xs) = (xs \<noteq> [])"
| "py_truthy (JDict d) = (d \<noteq> [])"

fun type_name :: "jval \<Rightarrow> string" where
  "type_name JNull = ''NoneType''"
| "type_name (JBool b) = ''bool''"
| "type_name (JInt n) = ''int''"
| "type_name (JStr s) = ''str''"
| "type_name (JList xs) = ''list''"
| "type_name (JDict d) = ''dict''"

definition dict_get :: "dict \<Rightarrow> string \<Rightarrow> jval \<Rightarrow> jval" where
  "dict_get d k dflt = (case map_of d k of None \<Rightarrow> dflt | Some v \<Rightarrow> v)"

definition dict_has :: "dict \<Rightarrow> string \<Rightarrow> bool" where
  "dict_has d k = (map_of d k \<noteq> None)"

text \<open>Truthiness of an optional dictionary (\<open>if requested_line:\<close>): \<open>None\<close> and \<open>{}\<close> are false.\<close>

fun dict_truthy :: "dict option \<Rightarrow> bool" where
  "dict_truthy None = False"
| "dict_truthy (Some d) = (d \<noteq> [])"

section \<open>Strings\<close>

text \<open>
  \<open>str.isspace\<close> on the code points below 256: tab to carriage return, the four
  separators 28 to 31, space, NEL (133) and the no-break space (160).
\<close>

definition py_isspace :: "char \<Rightarrow> bool" where
  "py_isspace c = (c \<in> set [CHR 0x09, CHR 0x0A, CHR 0x0B, CHR 0x0C, CHR 0x0D,
      CHR 0x1C, CHR 0x1D, CHR 0x1E, CHR 0x1F, CHR 0x20, CHR 0x85, CHR 0xA0])"

text \<open>The decimal digits (\<open>\d\<close> of a regular expression).\<close>

definition is_decimal :: "char \<Rightarrow> bool" where
  "is_decimal c = (c \<in> set ''0123456789'')"

text \<open>
  \<open>str.isdigit\<close> also accepts the superscript digits at 178, 179 and 185, and is false
  on the empty string.
\<close>

definition py_isdigit_char :: "char \<Rightarrow> bool" where
  "py_isdigit_char c = (is_decimal c \<or> c \<in> set [CHR 0xB2, CHR 0xB3, CHR 0xB9])"

definition py_isdigit :: "string \<Rightarrow> bool" where
  "py_isdigit s = (s \<noteq> [] \<and> list_all py_isdigit_char s)"

definition lstrip :: "string \<Rightarrow> string" where
  "lstrip s = dropWhile py_isspace s"

definition rstrip :: "string \<Rightarrow> string" where
  "rstrip s = rev (dropWhile py_isspace (rev s))"

definition strip :: "string \<Rightarrow> string" where
  "strip s = rstrip (lstrip s)"

text \<open>\<open>s.rstrip(".")\<close>, \<open>s.replace(" ", "")\<close> and \<open>s.replace(".", "")\<close>.\<close>

definition rstrip_dots :: "string \<Rightarrow> string" where
  "rstrip_dots s = rev (dropWhile (\<lambda>c. c = CHR ''.'') (rev s))"

definition remove_spaces :: "string \<Rightarrow> string" where
  "remove_spaces s = filter (\<lambda>c. c \<noteq> CHR '' '') s"

definition remove_dots :: "string \<Rightarrow> string" where
  "remove_dots s = filter (\<lambda>c. c \<noteq> CHR ''.'') s"

text \<open>The slice \<open>xs[a:b]\<close> for \<open>0 \<le> a \<le> b\<close>.\<close>

definition slice :: "nat \<Rightarrow> nat \<Rightarrow> 'a list \<Rightarrow> 'a list" where
  "slice a b xs = take (b - a) (drop a xs)"

text \<open>\<open>str(n)\<close> of an integer.\<close>

definition digit_char :: "nat \<Rightarrow> char" where
  "digit_char n = ''0123456789'' ! (n mod 10)"

fun show_nat :: "nat \<Rightarrow> string" where
  "show_nat n = (if n < 10 then [digit_char n] else show_nat (n div 10) @ [digit_char n])"

declare show_nat.simps [simp del]

definition show_int :: "int \<Rightarrow> string" where
  "show_int i = (if i < 0 then CHR ''-'' # show_nat (nat (- i)) else show_nat (nat i))"

text \<open>The text of an AttributeError: \<open>'int' object has no attribute 'strip'\<close>.\<close>

definition no_attribute :: "string \<Rightarrow> string \<Rightarrow> string" where
  "no_attribute ty attr =
     [CHR 0x27] @ ty @ [CHR 0x27] @ '' object has no attribute '' @ [CHR 0x27] @ attr @ [CHR 0x27]"

section \<open>Normalisation helpers (\<open>usitc_mapping.py\<close>)\<close>

text \<open>
  \<open>_clean_text(s)\<close> is \<open>(s or "").strip()\<close>. A falsy argument (None, \<open>""\<close>, 0, an
  empty list) becomes the empty string; a truthy string is stripped; any other truthy value
  has no \<open>strip\<close> method and raises AttributeError.
\<close>

definition clean_text :: "jval \<Rightarrow> exn + string" where
  "clean_text v =
     (if \<not> py_truthy v then Inr []
      else case v of
        JStr s \<Rightarrow> Inr (strip s)
      | _ \<Rightarrow> Inl (AttributeError (no_attribute (type_name v) ''strip'')))"

text \<open>
  \<open>normalize_hts_input\<close>: strip, remove spaces, strip trailing dots. Its argument is a
  \<open>str\<close>, for which \<open>_clean_text\<close> is \<open>strip\<close>.
\<close>

definition normalize_hts_input :: "string \<Rightarrow> string" where
  "normalize_hts_input q = rstrip_dots (remove_spaces (strip q))"

section \<open>The retry-wrapped fetcher (\<open>usitc_mapping.py\<close>)\<close>

text \<open>
  The remote service is a parameter of the model. A \<open>world\<close> answers the request made
  at a given moment: the URL, the query parameters and the number of the attempt, counted
  over the whole run, so that the same request may be answered differently each time.
  \<open>requests.get\<close> either returns a response or raises; the outcomes are named after the
  handler of \<open>_request_with_retry\<close> that catches them (\<open>RequestException\<close> stands for
  any other exception of the library). The body of a response is its JSON reading:
  not parseable (with the parser's message), a list of row objects, as the annotation
  \<open>List[Dict[str, Any]]\<close> of the fetchers declares, or some other JSON value.
\<close>

datatype payload = BadJson string | JsonRows "dict list" | JsonOther

record response =
  resp_status :: int
  resp_reason :: string
  resp_url :: string
  resp_body :: payload

datatype outcome =
    Returned response
  | Timeout
  | ConnectionError string
  | RequestException string

type_synonym params = "(string \<times> string) list"
type_synonym world = "string \<Rightarrow> params \<Rightarrow> nat \<Rightarrow> outcome"

text \<open>
  The state threaded through every remote call: \<open>clock\<close> counts the attempts made so
  far, \<open>slept\<close> lists the back-off delays (seconds) in the order they were slept.
\<close>

record net =
  clock :: nat
  slept :: "nat list"

definition MAX_RETRIES :: int where "MAX_RETRIES = 3"
definition RETRY_DELAY_SECONDS :: nat where "RETRY_DELAY_SECONDS = 1"
definition REQUEST_TIMEOUT :: int where "REQUEST_TIMEOUT = 30"
definition SEARCH_URL :: string where "SEARCH_URL = ''https://hts.usitc.gov/reststop/search''"
definition EXPORTLIST_URL :: string where
  "EXPORTLIST_URL = ''https://hts.usitc.gov/reststop/exportList''"
definition INCLUDE_CONTEXT :: bool where "INCLUDE_CONTEXT = True"

text \<open>
  \<open>Response.raise_for_status\<close> of the requests library raises \<open>HTTPError\<close>, with the
  response attached, for a status from 400 to 599; the result here is the message of the
  error, or \<open>None\<close> when nothing is raised.
\<close>

definition raise_for_status :: "response \<Rightarrow> string option" where
  "raise_for_status r =
     (if 400 \<le> resp_status r \<and> resp_status r < 500 then
        Some (show_int (resp_status r) @ '' Client Error: '' @ resp_reason r
              @ '' for url: '' @ resp_url r)
      else if 500 \<le> resp_status r \<and> resp_status r < 600 then
        Some (show_int (resp_status r) @ '' Server Error: '' @ resp_reason r
              @ '' for url: '' @ resp_url r)
      else None)"

text \<open>
  The truth value of a response object. The requests library defines
  \<open>Response.__bool__\<close> as \<open>self.ok\<close>, and \<open>ok\<close> is true exactly when
  \<open>raise_for_status\<close> does not raise: a response with an error status is falsy.
\<close>

definition response_bool :: "response \<Rightarrow> bool" where
  "response_bool r = (raise_for_status r = None)"

text \<open>\<open>e.response.status_code if e.response else None\<close> in the \<open>HTTPError\<close> handler.\<close>

definition http_error_status :: "response option \<Rightarrow> int option" where
  "http_error_status e_response =
     (case e_response of
        None \<Rightarrow> None
      | Some r \<Rightarrow> if response_bool r then Some (resp_status r) else None)"

text \<open>
  One pass through the \<open>try\<close> statement of the loop ends in one of three ways: the
  function returns the response, an exception leaves the function, or \<open>last_error\<close> is
  set and the loop goes on.
\<close>

datatype attempt_result = Done response | Raise exn | Retry exn

text \<open>The handler \<open>except requests.exceptions.HTTPError as e\<close>.\<close>

definition on_http_error :: "response option \<Rightarrow> string \<Rightarrow> nat \<Rightarrow> attempt_result" where
  "on_http_error e_response e_text attempt =
     (case http_error_status e_response of
        None \<Rightarrow> Retry (APIError (''HTTP error: '' @ e_text) None (int attempt + 1))
      | Some c \<Rightarrow>
          if c \<noteq> 0 \<and> 400 \<le> c \<and> c < 500 \<and> c \<noteq> 429 then
            Raise (APIError (''HTTP '' @ show_int c @ '': '' @ e_text) (Some c) (int attempt + 1))
          else
            Retry (APIError (''HTTP error: '' @ e_text) (Some c) (int attempt + 1)))"

definition attempt_once :: "outcome \<Rightarrow> int \<Rightarrow> nat \<Rightarrow> attempt_result" where
  "attempt_once out timeout attempt =
     (case out of
        Returned r \<Rightarrow>
          (case raise_for_status r of
             None \<Rightarrow> Done r
           | Some e_text \<Rightarrow> on_http_error (Some r) e_text attempt)
      | Timeout \<Rightarrow>
          Retry (APIError (''Request timed out after '' @ show_int timeout @ ''s'')
                   None (int attempt + 1))
      | ConnectionError e_text \<Rightarrow>
          Retry (APIError (''Connection error: '' @ e_text) None (int attempt + 1))
      | RequestException e_text \<Rightarrow>
          Retry (APIError (''Request failed: '' @ e_text) None (int attempt + 1)))"

text \<open>
  \<open>method.upper() == "GET"\<close>: only the six letters g, e, t, G, E, T have an upper case
  among G, E, T, so upper-casing the ASCII letters decides the test.
\<close>

definition ascii_upper :: "char \<Rightarrow> char" where
  "ascii_upper c =
     (case List.find (\<lambda>p. fst p = c)
             (zip ''abcdefghijklmnopqrstuvwxyz'' ''ABCDEFGHIJKLMNOPQRSTUVWXYZ'') of
        None \<Rightarrow> c
      | Some p \<Rightarrow> snd p)"

text \<open>The sleep before the next attempt, skipped after the last one.\<close>

definition backoff :: "int \<Rightarrow> nat \<Rightarrow> net \<Rightarrow> net" where
  "backoff max_retries attempt st =
     (if int attempt < max_retries - 1
      then st\<lparr>slept := slept st @ [RETRY_DELAY_SECONDS * 2 ^ attempt]\<rparr>
      else st)"

text \<open>
  The loop \<open>for attempt in range(max_retries)\<close>, by recursion over the attempt numbers
  still to come, and the \<open>raise\<close> after it.
\<close>

fun retry_loop ::
  "world \<Rightarrow> string \<Rightarrow> string \<Rightarrow> params \<Rightarrow> int \<Rightarrow> int \<Rightarrow> nat list \<Rightarrow> exn option \<Rightarrow> net
     \<Rightarrow> (exn + response) \<times> net" where
  "retry_loop w method url ps max_retries timeout [] last_error st =
     (Inl (case last_error of
             Some e \<Rightarrow> e
           | None \<Rightarrow> APIError ''Unknown error after retries'' None max_retries), st)"
| "retry_loop w method url ps max_retries timeout (attempt # rest) last_error st =
     (if map ascii_upper method \<noteq> ''GET'' then
        (Inl (ValueError (''Unsupported method: '' @ method)), st)
      else
        (case attempt_once (w url ps (clock st)) timeout attempt of
           Done r \<Rightarrow> (Inr r, st\<lparr>clock := Suc (clock st)\<rparr>)
         | Raise e \<Rightarrow> (Inl e, st\<lparr>clock := Suc (clock st)\<rparr>)
         | Retry e \<Rightarrow>
             retry_loop w method url ps max_retries timeout rest (Some e)
               (backoff max_retries attempt (st\<lparr>clock := Suc (clock st)\<rparr>))))"

definition request_with_retry ::
  "world \<Rightarrow> string \<Rightarrow> string \<Rightarrow> params \<Rightarrow> int \<Rightarrow> int \<Rightarrow> net \<Rightarrow> (exn + response) \<times> net" where
  "request_with_retry w method url ps max_retries timeout st =
     retry_loop w method url ps max_retries timeout [0..<nat max_retries] None st"

text \<open>
  \<open>str(e)\<close>. An \<open>APIError\<close> is built from keyword arguments only, so its \<open>args\<close> are
  empty and its text is the empty string.
\<close>

fun exn_text :: "exn \<Rightarrow> string" where
  "exn_text (APIError m c n) = []"
| "exn_text (AttributeError t) = t"
| "exn_text (ValueError t) = t"
| "exn_text (TypeError t) = t"
| "exn_text (UnicodeDecodeError t) = t"

text \<open>
  The body shared by \<open>fetch_search\<close> and \<open>fetch_exportlist\<close>: an \<open>APIError\<close> passes,
  any other exception (among them the failure of \<open>response.json()\<close>) is wrapped, and a
  body that is not a list counts as no rows.
\<close>

definition read_rows :: "string \<Rightarrow> (exn + response) \<times> net \<Rightarrow> (exn + dict list) \<times> net" where
  "read_rows what res =
     (case res of
        (Inl (APIError m c n), st) \<Rightarrow> (Inl (APIError m c n), st)
      | (Inl e, st) \<Rightarrow>
          (Inl (APIError (''Failed to parse '' @ what @ '' response: '' @ exn_text e) None 0), st)
      | (Inr r, st) \<Rightarrow>
          (case resp_body r of
             BadJson e_text \<Rightarrow>
               (Inl (APIError (''Failed to parse '' @ what @ '' response: '' @ e_text) None 0), st)
           | JsonRows rows \<Rightarrow> (Inr rows, st)
           | JsonOther \<Rightarrow> (Inr [], st)))"

definition fetch_search :: "world \<Rightarrow> string \<Rightarrow> net \<Rightarrow> (exn + dict list) \<times> net" where
  "fetch_search w keyword st =
     read_rows ''search''
       (request_with_retry w ''GET'' SEARCH_URL [(''keyword'', keyword)]
          MAX_RETRIES REQUEST_TIMEOUT st)"

definition fetch_exportlist :: "world \<Rightarrow> string \<Rightarrow> string \<Rightarrow> net \<Rightarrow> (exn + dict list) \<times> net" where
  "fetch_exportlist w from_code to_code st =
     read_rows ''exportList''
       (request_with_retry w ''GET'' EXPORTLIST_URL
          [(''format'', ''JSON''), (''from'', from_code), (''to'', to_code), (''styles'', ''false'')]
          MAX_RETRIES REQUEST_TIMEOUT st)"

section \<open>Hierarchy resolution (\<open>usitc_search.py\<close>)\<close>

text \<open>
  \<open>HTSQuantitativeResult\<close>. Python does not enforce the annotations of a dataclass, and
  \<open>get_stored_result\<close> fills \<open>hts_code\<close>, \<open>effective_hts_code\<close> and
  \<open>fallback_chain\<close> with whatever the store holds, so these fields and
  \<open>error_message\<close> are JSON values: \<open>None\<close> is \<open>JNull\<close>, a code is a \<open>JStr\<close>, the
  chain is a \<open>JList\<close> of \<open>JStr\<close>. The field \<open>quantitative_fields\<close> is left out: it is
  computed from \<open>resolved_view\<close> by \<open>extract_quantitative_fields\<close>, which parses
  floating-point numbers, raises nothing and is read by no other function.
\<close>

record hts_result =
  hts_code :: jval
  requested_line :: "dict option"
  effective_duty_line :: "dict option"
  effective_hts_code :: jval
  resolved_view :: dict
  hierarchical_context :: "dict list"
  fallback_chain :: jval
  error_message :: jval

text \<open>The constructor with every field but the code at its default.\<close>

definition new_result :: "jval \<Rightarrow> hts_result" where
  "new_result code =
     \<lparr>hts_code = code, requested_line = None, effective_duty_line = None,
      effective_hts_code = JNull, resolved_view = [], hierarchical_context = [],
      fallback_chain = JList [], error_message = JNull\<rparr>"

definition format_hts_code :: "string \<Rightarrow> string" where
  "format_hts_code digits =
     (if length digits \<ge> 10 then
        slice 0 4 digits @ ''.'' @ slice 4 6 digits @ ''.'' @ slice 6 8 digits @ ''.''
          @ slice 8 10 digits
      else if length digits \<ge> 8 then
        slice 0 4 digits @ ''.'' @ slice 4 6 digits @ ''.'' @ slice 6 8 digits
      else if length digits \<ge> 6 then
        slice 0 4 digits @ ''.'' @ slice 4 6 digits
      else if length digits \<ge> 4 then
        slice 0 4 digits
      else digits)"

definition get_ancestor_codes :: "string \<Rightarrow> string list" where
  "get_ancestor_codes code =
     (let code_digits = remove_dots code in
        (if length code_digits \<ge> 10 then [format_hts_code (slice 0 8 code_digits)] else [])
      @ (if length code_digits \<ge> 8 then [format_hts_code (slice 0 6 code_digits)] else [])
      @ (if length code_digits \<ge> 6 then [format_hts_code (slice 0 4 code_digits)] else []))"

definition rate_fields :: "string list" where
  "rate_fields = [''general'', ''special'', ''other'']"

text \<open>
  \<open>any((item.get(field) or "").strip() for field in ...)\<close>: the fields are tried in
  order, the first non-blank one ends the test, and a truthy value that is not a string
  raises before the later fields are looked at.
\<close>

fun any_rate :: "dict \<Rightarrow> string list \<Rightarrow> exn + bool" where
  "any_rate item [] = Inr False"
| "any_rate item (f # fs) =
     (case clean_text (dict_get item f JNull) of
        Inl e \<Rightarrow> Inl e
      | Inr t \<Rightarrow> if t \<noteq> [] then Inr True else any_rate item fs)"

text \<open>The loop over \<open>ancestor_lines\<close>, carrying \<open>candidates\<close> and \<open>fallback_chain\<close>.\<close>

fun add_ancestors ::
  "dict list \<Rightarrow> dict list \<Rightarrow> string list \<Rightarrow> exn + (dict list \<times> string list)" where
  "add_ancestors [] candidates chain = Inr (candidates, chain)"
| "add_ancestors (item # rest) candidates chain =
     (case clean_text (dict_get item ''htsno'' (JStr [])) of
        Inl e \<Rightarrow> Inl e
      | Inr code \<Rightarrow>
          if code \<noteq> [] \<and> code \<notin> set chain
          then add_ancestors rest (candidates @ [item]) (chain @ [code])
          else add_ancestors rest candidates chain)"

text \<open>The loop \<open>for item in candidates\<close>: the first row with any duty rate.\<close>

fun first_with_rate :: "dict list \<Rightarrow> exn + dict option" where
  "first_with_rate [] = Inr None"
| "first_with_rate (item # rest) =
     (case any_rate item rate_fields of
        Inl e \<Rightarrow> Inl e
      | Inr True \<Rightarrow> Inr (Some item)
      | Inr False \<Rightarrow> first_with_rate rest)"

text \<open>The first statement: the requested line opens the two lists if it has a code.\<close>

definition start_candidates :: "dict option \<Rightarrow> exn + (dict list \<times> string list)" where
  "start_candidates requested =
     (case requested of
        None \<Rightarrow> Inr ([], [])
      | Some line \<Rightarrow>
          if line = [] then Inr ([], [])
          else (case clean_text (dict_get line ''htsno'' (JStr [])) of
                  Inl e \<Rightarrow> Inl e
                | Inr code \<Rightarrow> if code \<noteq> [] then Inr ([line], [code]) else Inr ([], [])))"

definition resolve_effective_duty_line ::
  "dict option \<Rightarrow> dict list \<Rightarrow> string \<Rightarrow> exn + (dict option \<times> string list)" where
  "resolve_effective_duty_line requested ancestor_lines target_hts =
     (case start_candidates requested of
        Inl e \<Rightarrow> Inl e
      | Inr (candidates0, chain0) \<Rightarrow>
          (case add_ancestors ancestor_lines candidates0 chain0 of
             Inl e \<Rightarrow> Inl e
           | Inr (candidates, chain) \<Rightarrow>
               (case first_with_rate candidates of
                  Inl e \<Rightarrow> Inl e
                | Inr line \<Rightarrow> Inr (line, chain))))"

text \<open>
  \<open>value and str(value).strip()\<close>: the value is truthy and its text is not blank. The
  text of a truthy value that is not a string (\<open>True\<close>, a non-zero integer, a non-empty
  list or dictionary) always holds a character that is not a space.
\<close>

fun rate_present :: "jval \<Rightarrow> bool" where
  "rate_present (JStr t) = (t \<noteq> [] \<and> strip t \<noteq> [])"
| "rate_present v = py_truthy v"

text \<open>The loop of \<open>merge_resolved_view\<close> over the three rate fields.\<close>

fun overlay_rates :: "dict \<Rightarrow> string list \<Rightarrow> dict \<Rightarrow> dict" where
  "overlay_rates line [] resolved = resolved"
| "overlay_rates line (f # fs) resolved =
     (let v = dict_get line f JNull in
      overlay_rates line fs (if rate_present v then AList.update f v resolved else resolved))"

text \<open>
  \<open>resolved.update(requested_line)\<close> on the empty dictionary copies the requested line,
  item by item and in order.
\<close>

definition merge_resolved_view :: "dict option \<Rightarrow> dict option \<Rightarrow> dict" where
  "merge_resolved_view requested effective =
     (let resolved = (case requested of None \<Rightarrow> [] | Some line \<Rightarrow> line) in
      case effective of
        None \<Rightarrow> resolved
      | Some line \<Rightarrow> if line = [] then resolved else overlay_rates line rate_fields resolved)"

text \<open>The two searches of \<open>fetch_hts_row\<close> through the rows returned.\<close>

fun find_exact :: "dict list \<Rightarrow> string \<Rightarrow> exn + dict option" where
  "find_exact [] code = Inr None"
| "find_exact (item # rest) code =
     (case clean_text (dict_get item ''htsno'' (JStr [])) of
        Inl e \<Rightarrow> Inl e
      | Inr c \<Rightarrow> if c = code then Inr (Some item) else find_exact rest code)"

fun find_coded :: "dict list \<Rightarrow> exn + dict option" where
  "find_coded [] = Inr None"
| "find_coded (item # rest) =
     (case clean_text (dict_get item ''htsno'' (JStr [])) of
        Inl e \<Rightarrow> Inl e
      | Inr c \<Rightarrow> if c \<noteq> [] then Inr (Some item) else find_coded rest)"

text \<open>
  \<open>fetch_hts_row\<close> catches \<open>APIError\<close> and returns \<open>None\<close>; any other exception leaves
  the function.
\<close>

definition fetch_hts_row :: "world \<Rightarrow> string \<Rightarrow> net \<Rightarrow> (exn + dict option) \<times> net" where
  "fetch_hts_row w code st =
     (case fetch_exportlist w code code st of
        (Inl (APIError m c n), st') \<Rightarrow> (Inr None, st')
      | (Inl e, st') \<Rightarrow> (Inl e, st')
      | (Inr [], st') \<Rightarrow> (Inr None, st')
      | (Inr (first # others), st') \<Rightarrow>
          (case find_exact (first # others) code of
             Inl e \<Rightarrow> (Inl e, st')
           | Inr (Some item) \<Rightarrow> (Inr (Some item), st')
           | Inr None \<Rightarrow>
               (case find_coded (first # others) of
                  Inl e \<Rightarrow> (Inl e, st')
                | Inr (Some item) \<Rightarrow> (Inr (Some item), st')
                | Inr None \<Rightarrow> (Inr (Some first), st'))))"

text \<open>The loop over the ancestor codes: a row that is \<open>None\<close> or empty is skipped.\<close>

fun fetch_ancestors ::
  "world \<Rightarrow> string list \<Rightarrow> dict list \<Rightarrow> net \<Rightarrow> (exn + dict list) \<times> net" where
  "fetch_ancestors w [] ancestor_lines st = (Inr ancestor_lines, st)"
| "fetch_ancestors w (ancestor_code # rest) ancestor_lines st =
     (case fetch_hts_row w ancestor_code st of
        (Inl e, st') \<Rightarrow> (Inl e, st')
      | (Inr None, st') \<Rightarrow> fetch_ancestors w rest ancestor_lines st'
      | (Inr (Some row), st') \<Rightarrow>
          fetch_ancestors w rest (if row = [] then ancestor_lines else ancestor_lines @ [row]) st')"

text \<open>
  The \<open>try\<close> block of \<open>search_hts_quantitative_details\<close>, for a normalised code that is
  not empty. \<open>all_context\<close> receives the same rows as \<open>ancestor_lines\<close>, after the
  requested line.
\<close>

definition not_found :: "string \<Rightarrow> string \<Rightarrow> hts_result" where
  "not_found normalized_code detail =
     (new_result (JStr normalized_code))
       \<lparr>error_message := JStr (''Exact HTS code not found: '' @ normalized_code @ detail)\<rparr>"

text \<open>\<open>effective_hts_code\<close>: the cleaned code of the effective line, if there is one.\<close>

definition effective_code_of :: "dict option \<Rightarrow> exn + jval" where
  "effective_code_of effective =
     (case effective of
        None \<Rightarrow> Inr JNull
      | Some line \<Rightarrow>
          if line = [] then Inr JNull
          else (case clean_text (dict_get line ''htsno'' (JStr [])) of
                  Inl e \<Rightarrow> Inl e
                | Inr code \<Rightarrow> Inr (JStr code)))"

text \<open>Steps 2 to 4, once the requested line is known to carry the requested code.\<close>

definition resolve_found :: "world \<Rightarrow> string \<Rightarrow> dict \<Rightarrow> net \<Rightarrow> (exn + hts_result) \<times> net" where
  "resolve_found w normalized_code line st1 =
     (case fetch_ancestors w (get_ancestor_codes normalized_code) [] st1 of
        (Inl e, st2) \<Rightarrow> (Inl e, st2)
      | (Inr ancestor_lines, st2) \<Rightarrow>
          (case resolve_effective_duty_line (Some line) ancestor_lines normalized_code of
             Inl e \<Rightarrow> (Inl e, st2)
           | Inr (effective, chain) \<Rightarrow>
               (case effective_code_of effective of
                  Inl e \<Rightarrow> (Inl e, st2)
                | Inr effective_code \<Rightarrow>
                    (Inr \<lparr>hts_code = JStr normalized_code,
                          requested_line = Some line,
                          effective_duty_line = effective,
                          effective_hts_code = effective_code,
                          resolved_view = merge_resolved_view (Some line) effective,
                          hierarchical_context = line # ancestor_lines,
                          fallback_chain = JList (map JStr chain),
                          error_message = JNull\<rparr>, st2))))"

definition search_body :: "world \<Rightarrow> string \<Rightarrow> net \<Rightarrow> (exn + hts_result) \<times> net" where
  "search_body w normalized_code st =
     (case fetch_hts_row w normalized_code st of
        (Inl e, st1) \<Rightarrow> (Inl e, st1)
      | (Inr None, st1) \<Rightarrow> (Inr (not_found normalized_code []), st1)
      | (Inr (Some line), st1) \<Rightarrow>
          if line = [] then (Inr (not_found normalized_code []), st1)
          else
            (case clean_text (dict_get line ''htsno'' (JStr [])) of
               Inl e \<Rightarrow> (Inl e, st1)
             | Inr requested_code \<Rightarrow>
                 if requested_code \<noteq> normalized_code then
                   (Inr (not_found normalized_code ('' (got '' @ requested_code @ '' instead)'')),
                    st1)
                 else resolve_found w normalized_code line st1))"

text \<open>
  \<open>search_hts_quantitative_details\<close>: the handlers turn every exception of the body
  into an error result.
\<close>

definition search_hts_quantitative_details :: "world \<Rightarrow> string \<Rightarrow> net \<Rightarrow> hts_result \<times> net" where
  "search_hts_quantitative_details w code st =
     (let normalized_code = normalize_hts_input code in
      if normalized_code = [] then
        ((new_result (JStr code))
           \<lparr>error_message := JStr ''Invalid HTS code: empty or invalid format''\<rparr>, st)
      else
        (case search_body w normalized_code st of
           (Inr res, st') \<Rightarrow> (res, st')
         | (Inl (APIError m c n), st') \<Rightarrow>
             ((new_result (JStr normalized_code))
                \<lparr>error_message := JStr (''API error: '' @ m @ '' (retries: '' @ show_int n @ '')'')\<rparr>,
              st')
         | (Inl e, st') \<Rightarrow>
             ((new_result (JStr normalized_code))
                \<lparr>error_message := JStr (''Unexpected error: '' @ exn_text e)\<rparr>, st')))"

section \<open>The result store (\<open>usitc_search.py\<close>)\<close>

text \<open>
  The file \<open>hts_search_results.json\<close> is absent, unreadable (its text is not JSON, or
  reading it fails with an I/O error), undecodable (its bytes are not UTF-8, with the
  message of the decoder), or holds a JSON value. Reading the text written by
  \<open>json.dump\<close> gives the value back; the model keeps the value.
\<close>

datatype results_file = NoFile | Unreadable | Undecodable string | Parsed jval

text \<open>
  In memory the store is a dictionary whose keys are whatever \<open>hts_code\<close> values it was
  built from. Python compares keys with \<open>==\<close>, under which \<open>True\<close> is 1 and \<open>False\<close>
  is 0; a list or a dictionary cannot be a key.
\<close>

type_synonym store = "(jval \<times> jval) list"

fun key_eq :: "jval \<Rightarrow> jval \<Rightarrow> bool" where
  "key_eq (JBool a) (JInt n) = (n = (if a then 1 else 0))"
| "key_eq (JInt n) (JBool a) = (n = (if a then 1 else 0))"
| "key_eq a b = (a = b)"

fun hashable :: "jval \<Rightarrow> bool" where
  "hashable (JList xs) = False"
| "hashable (JDict d) = False"
| "hashable v = True"

definition unhashable :: "jval \<Rightarrow> exn" where
  "unhashable v = TypeError (''unhashable type: '' @ [CHR 0x27] @ type_name v @ [CHR 0x27])"

fun store_has :: "store \<Rightarrow> jval \<Rightarrow> bool" where
  "store_has [] k = False"
| "store_has ((k', v) # rest) k = (key_eq k' k \<or> store_has rest k)"

fun store_lookup :: "store \<Rightarrow> jval \<Rightarrow> jval option" where
  "store_lookup [] k = None"
| "store_lookup ((k', v) # rest) k = (if key_eq k' k then Some v else store_lookup rest k)"

fun store_set :: "store \<Rightarrow> jval \<Rightarrow> jval \<Rightarrow> store" where
  "store_set [] k v = [(k, v)]"
| "store_set ((k', v') # rest) k v =
     (if key_eq k' k then (k', v) # rest else (k', v') # store_set rest k v)"

text \<open>
  The dictionary comprehension of \<open>load_stored_results\<close> over a list document: an item
  that is not a dictionary has no \<open>get\<close>, an item without a truthy \<open>hts_code\<close> is
  skipped, and the code becomes the key.
\<close>

fun from_list :: "jval list \<Rightarrow> store \<Rightarrow> exn + store" where
  "from_list [] acc = Inr acc"
| "from_list (JDict item # rest) acc =
     (if py_truthy (dict_get item ''hts_code'' JNull) then
        (let k = dict_get item ''hts_code'' (JStr []) in
         if hashable k then from_list rest (store_set acc k (JDict item))
         else Inl (unhashable k))
      else from_list rest acc)"
| "from_list (item # rest) acc = Inl (AttributeError (no_attribute (type_name item) ''get''))"

definition load_stored_results :: "results_file \<Rightarrow> exn + store" where
  "load_stored_results file =
     (case file of
        NoFile \<Rightarrow> Inr []
      | Unreadable \<Rightarrow> Inr []
      | Undecodable t \<Rightarrow> Inl (UnicodeDecodeError t)
      | Parsed (JDict d) \<Rightarrow> Inr (map (\<lambda>(k, v). (JStr k, v)) d)
      | Parsed (JList items) \<Rightarrow> from_list items []
      | Parsed _ \<Rightarrow> Inr [])"

text \<open>
  \<open>to_compact_dict\<close>. The description is cleaned with \<open>_clean_text\<close>, which raises on a
  truthy description that is not a string.
\<close>

definition put_if :: "bool \<Rightarrow> string \<Rightarrow> jval \<Rightarrow> dict \<Rightarrow> dict" where
  "put_if b k v d = (if b then AList.update k v d else d)"

fun compact_rates :: "dict \<Rightarrow> string list \<Rightarrow> dict \<Rightarrow> dict" where
  "compact_rates view [] compact = compact"
| "compact_rates view (f # fs) compact =
     (let v = dict_get view f JNull in
      compact_rates view fs (put_if (rate_present v) f v compact))"

definition compact_view :: "dict \<Rightarrow> dict \<Rightarrow> dict" where
  "compact_view view compact =
     (if view = [] then compact
      else
        (let c1 = compact_rates view rate_fields compact;
             units = dict_get view ''units'' JNull;
             c2 = put_if (py_truthy units) ''units'' units c1;
             footnotes = dict_get view ''footnotes'' JNull;
             c3 = put_if (py_truthy footnotes) ''footnotes'' footnotes c2;
             quota = dict_get view ''quotaQuantity'' JNull;
             c4 = put_if (quota \<noteq> JNull) ''quotaQuantity'' quota c3;
             additional_duties = dict_get view ''additionalDuties'' JNull
         in put_if (additional_duties \<noteq> JNull) ''additionalDuties'' additional_duties c4))"

definition to_compact_dict :: "hts_result \<Rightarrow> exn + dict" where
  "to_compact_dict r =
     (let compact = [(''hts_code'', hts_code r),
                     (''effective_hts_code'', effective_hts_code r),
                     (''fallback_chain'', fallback_chain r)]
      in case (if dict_truthy (requested_line r)
               then (case requested_line r of
                       None \<Rightarrow> Inr compact
                     | Some line \<Rightarrow>
                         (case clean_text (dict_get line ''description'' (JStr [])) of
                            Inl e \<Rightarrow> Inl e
                          | Inr description \<Rightarrow>
                              Inr (put_if (description \<noteq> []) ''description''
                                     (JStr description) compact)))
               else Inr compact) of
           Inl e \<Rightarrow> Inl e
         | Inr compact1 \<Rightarrow> Inr (compact_view (resolved_view r) compact1))"

text \<open>
  \<open>json.dump\<close> writes every key as a string (\<open>true\<close>, \<open>false\<close>, \<open>null\<close>, the decimal
  digits of an integer); reading the text back keeps, for a key written twice, the place
  of its first occurrence and the value of its last.
\<close>

fun json_key :: "jval \<Rightarrow> string" where
  "json_key (JStr k) = k"
| "json_key (JBool b) = (if b then ''true'' else ''false'')"
| "json_key (JInt n) = show_int n"
| "json_key v = ''null''"

definition dumped :: "store \<Rightarrow> jval" where
  "dumped st = JDict (fold (\<lambda>(k, v) d. AList.update (json_key k) v d) st [])"

text \<open>
  What the write does is a parameter: it succeeds, \<open>open\<close> fails and leaves the file as
  it was, or the write fails midway and leaves a file that is no longer JSON.
\<close>

datatype write_outcome = Written | OpenFails | WriteFails

definition save_result_to_json ::
  "hts_result \<Rightarrow> write_outcome \<Rightarrow> results_file \<Rightarrow> (exn + bool) \<times> results_file" where
  "save_result_to_json r wo file =
     (if py_truthy (error_message r) then (Inr False, file)
      else
        (case load_stored_results file of
           Inl e \<Rightarrow> (Inl e, file)
         | Inr stored_results \<Rightarrow>
             if \<not> hashable (hts_code r) then (Inl (unhashable (hts_code r)), file)
             else if store_has stored_results (hts_code r) then (Inr False, file)
             else
               (case to_compact_dict r of
                  Inl e \<Rightarrow> (Inl e, file)
                | Inr compact \<Rightarrow>
                    (case wo of
                       Written \<Rightarrow>
                         (Inr True,
                          Parsed (dumped (store_set stored_results (hts_code r) (JDict compact))))
                     | OpenFails \<Rightarrow> (Inr False, file)
                     | WriteFails \<Rightarrow> (Inr False, Unreadable)))))"

text \<open>
  \<open>get_stored_result\<close>. Inside its \<open>try\<close> every exception gives \<open>None\<close>: an entry that
  is not a dictionary fails at the first subscript, and so does a dictionary without
  \<open>hts_code\<close>.
\<close>

fun copy_fields :: "dict \<Rightarrow> string list \<Rightarrow> dict \<Rightarrow> dict" where
  "copy_fields stored_data [] acc = acc"
| "copy_fields stored_data (f # fs) acc =
     copy_fields stored_data fs
       (case map_of stored_data f of None \<Rightarrow> acc | Some v \<Rightarrow> AList.update f v acc)"

definition view_fields :: "string list" where
  "view_fields = [''general'', ''special'', ''other'', ''units'', ''footnotes'',
                  ''quotaQuantity'', ''additionalDuties'']"

definition rebuild :: "dict \<Rightarrow> hts_result option" where
  "rebuild stored_data =
     (case map_of stored_data ''hts_code'' of
        None \<Rightarrow> None
      | Some code \<Rightarrow>
          Some \<lparr>hts_code = code,
                requested_line =
                  (case map_of stored_data ''description'' of
                     None \<Rightarrow> None
                   | Some d \<Rightarrow> Some [(''description'', d), (''htsno'', code)]),
                effective_duty_line =
                  (if \<exists>f \<in> set rate_fields. dict_has stored_data f then
                     Some (let line = copy_fields stored_data rate_fields [] in
                           case map_of stored_data ''effective_hts_code'' of
                             None \<Rightarrow> line
                           | Some c \<Rightarrow> AList.update ''htsno'' c line)
                   else None),
                effective_hts_code = dict_get stored_data ''effective_hts_code'' JNull,
                resolved_view = copy_fields stored_data view_fields [],
                hierarchical_context = [],
                fallback_chain = dict_get stored_data ''fallback_chain'' (JList []),
                error_message = JNull\<rparr>)"

definition get_stored_result :: "jval \<Rightarrow> results_file \<Rightarrow> exn + hts_result option" where
  "get_stored_result code file =
     (case load_stored_results file of
        Inl e \<Rightarrow> Inl e
      | Inr stored_results \<Rightarrow>
          if \<not> hashable code then Inl (unhashable code)
          else (case store_lookup stored_results code of
                  Some (JDict stored_data) \<Rightarrow> Inr (rebuild stored_data)
                | _ \<Rightarrow> Inr None))"

section \<open>Query classification and range building (\<open>usitc_mapping.py\<close>)\<close>

text \<open>
  \<open>HTS_CHARS_ONLY\<close> is \<open>^[\d.\s]+$\<close>: a non-empty string of digits, dots and white
  space (the class contains the newline, so \<open>$\<close> adds nothing).
\<close>

definition code_char :: "char \<Rightarrow> bool" where
  "code_char c = (is_decimal c \<or> c = CHR ''.'')"

definition hts_chars_only :: "string \<Rightarrow> bool" where
  "hts_chars_only q = (q \<noteq> [] \<and> list_all (\<lambda>c. code_char c \<or> py_isspace c) q)"

definition is_hts_like :: "string \<Rightarrow> bool" where
  "is_hts_like q0 = (let q = strip q0 in if q = [] then False else hts_chars_only q)"

definition hts_digits_len :: "string \<Rightarrow> nat" where
  "hts_digits_len q = length (remove_dots (normalize_hts_input q))"

definition is_exact_hts_code :: "string \<Rightarrow> bool" where
  "is_exact_hts_code q =
     (let qn = normalize_hts_input q; digits = remove_dots qn in
      if \<not> py_isdigit digits then False
      else length digits \<in> set [4, 6, 8, 10])"

text \<open>
  \<open>HYBRID_PATTERN\<close> is \<open>^([\d.]+)\s+(.+)$\<close>. The first group is the longest run of
  digits and dots, since the character after it must be white space. \<open>(.+)$\<close> matches
  a tail made of a non-empty run without newline, followed by nothing or by one final
  newline; the run is the second group. \<open>\s+\<close> is greedy: it takes the largest number
  of white-space characters that leaves such a tail.
\<close>

definition tail_body :: "string \<Rightarrow> string" where
  "tail_body t = takeWhile (\<lambda>c. c \<noteq> CHR 0x0A) t"

definition tail_ok :: "string \<Rightarrow> bool" where
  "tail_ok t =
     (let rest = dropWhile (\<lambda>c. c \<noteq> CHR 0x0A) t in
      tail_body t \<noteq> [] \<and> (rest = [] \<or> rest = [CHR 0x0A]))"

definition hybrid_match :: "string \<Rightarrow> (string \<times> string) option" where
  "hybrid_match q =
     (let g1 = takeWhile code_char q;
          r1 = dropWhile code_char q;
          ws = takeWhile py_isspace r1
      in if g1 = [] then None
         else (case List.find (\<lambda>k. tail_ok (drop k r1)) (rev [1..<Suc (length ws)]) of
                 None \<Rightarrow> None
               | Some k \<Rightarrow> Some (g1, tail_body (drop k r1))))"

definition parse_hybrid_query :: "string \<Rightarrow> string option \<times> string option" where
  "parse_hybrid_query q0 =
     (let q = strip q0 in
      case hybrid_match q of
        None \<Rightarrow> (None, None)
      | Some (hts_part, g2) \<Rightarrow>
          (let keyword_part = strip g2 in
           if py_isdigit (remove_dots hts_part) \<and> keyword_part \<noteq> []
           then (Some (normalize_hts_input hts_part), Some keyword_part)
           else (None, None)))"

text \<open>The local function \<open>format_hts\<close> of \<open>build_hts_range\<close>.\<close>

definition format_hts :: "string \<Rightarrow> string" where
  "format_hts d =
     (if length d \<ge> 10 then
        slice 0 4 d @ ''.'' @ slice 4 6 d @ ''.'' @ slice 6 8 d @ ''.'' @ slice 8 10 d
      else if length d \<ge> 8 then slice 0 4 d @ ''.'' @ slice 4 6 d @ ''.'' @ slice 6 8 d
      else if length d \<ge> 6 then slice 0 4 d @ ''.'' @ slice 4 6 d
      else if length d \<ge> 4 then slice 0 4 d
      else d)"

definition build_hts_range :: "string \<Rightarrow> string \<times> string" where
  "build_hts_range prefix0 =
     (let prefix = normalize_hts_input prefix0;
          digits = remove_dots prefix
      in if length digits \<ge> 10 then (prefix, prefix)
         else
           (let remaining = 10 - length digits;
                from_digits = digits @ replicate remaining (CHR ''0'');
                to_digits = digits @ replicate remaining (CHR ''9'')
            in (format_hts from_digits, format_hts to_digits)))"

definition fetch_range_enumeration :: "world \<Rightarrow> string \<Rightarrow> net \<Rightarrow> (exn + dict list) \<times> net" where
  "fetch_range_enumeration w pre st =
     (case build_hts_range pre of (from_code, to_code) \<Rightarrow> fetch_exportlist w from_code to_code st)"

section \<open>Candidates and lookups (\<open>usitc_mapping.py\<close>)\<close>

record candidate =
  htsno :: string
  description :: string

text \<open>\<open>LookupResult\<close>; its field \<open>error_message\<close> is \<open>lookup_error\<close> here.\<close>

record lookup_result =
  mode :: string
  query :: string
  count :: nat
  candidates :: "candidate list"
  context_rows :: "dict list option"
  lookup_error :: "string option"

fun extract_candidates_from_items :: "dict list \<Rightarrow> exn + candidate list" where
  "extract_candidates_from_items [] = Inr []"
| "extract_candidates_from_items (item # rest) =
     (case clean_text (dict_get item ''htsno'' JNull) of
        Inl e \<Rightarrow> Inl e
      | Inr code \<Rightarrow>
          (case clean_text (dict_get item ''description'' JNull) of
             Inl e \<Rightarrow> Inl e
           | Inr desc \<Rightarrow>
               (case extract_candidates_from_items rest of
                  Inl e \<Rightarrow> Inl e
                | Inr out \<Rightarrow>
                    Inr (if code \<noteq> [] \<and> desc \<noteq> []
                         then \<lparr>htsno = code, description = desc\<rparr> # out else out))))"

fun dedupe_from :: "string list \<Rightarrow> candidate list \<Rightarrow> candidate list" where
  "dedupe_from seen [] = []"
| "dedupe_from seen (c # cs) =
     (if htsno c \<notin> set seen then c # dedupe_from (htsno c # seen) cs else dedupe_from seen cs)"

definition dedupe_candidates :: "candidate list \<Rightarrow> candidate list" where
  "dedupe_candidates cands = dedupe_from [] cands"

definition filter_by_hts_prefix :: "candidate list \<Rightarrow> string \<Rightarrow> candidate list" where
  "filter_by_hts_prefix cands prefix0 =
     (let pre = normalize_hts_input prefix0 in
      if pre = [] then cands
      else
        (let prefix_digits = remove_dots pre in
         filter (\<lambda>c. prefix pre (htsno c) \<or> prefix prefix_digits (remove_dots (htsno c))) cands))"

text \<open>
  \<open>str.lower\<close> on the code points below 256 (the letters A to Z and the accented capitals
  192 to 222 without the multiplication sign), \<open>str.split()\<close> on white space, and the
  substring test \<open>kw in text\<close>.
\<close>

definition py_lower_char :: "char \<Rightarrow> char" where
  "py_lower_char c =
     (let n = (of_char c :: nat) in
      if (65 \<le> n \<and> n \<le> 90) \<or> (192 \<le> n \<and> n \<le> 222 \<and> n \<noteq> 215) then char_of (n + 32) else c)"

definition py_lower :: "string \<Rightarrow> string" where
  "py_lower t = map py_lower_char t"

fun split_from :: "string \<Rightarrow> string \<Rightarrow> string list" where
  "split_from [] cur = (if cur = [] then [] else [cur])"
| "split_from (c # cs) cur =
     (if py_isspace c then (if cur = [] then split_from cs [] else cur # split_from cs [])
      else split_from cs (cur @ [c]))"

definition py_split :: "string \<Rightarrow> string list" where
  "py_split t = split_from t []"

definition contains :: "string \<Rightarrow> string \<Rightarrow> bool" where
  "contains kw t = list_ex (prefix kw) (suffixes t)"

definition filter_by_keyword :: "candidate list \<Rightarrow> string \<Rightarrow> candidate list" where
  "filter_by_keyword cands keyword0 =
     (let keyword = strip (py_lower keyword0) in
      if keyword = [] then cands
      else
        (let keywords = py_split keyword in
         filter (\<lambda>c. list_all (\<lambda>kw. contains kw (py_lower (description c))) keywords) cands))"

text \<open>
  The slice \<open>xs[:n]\<close> for any integer \<open>n\<close>: a negative \<open>n\<close> counts from the end.
\<close>

definition slice_to :: "int \<Rightarrow> 'a list \<Rightarrow> 'a list" where
  "slice_to n xs = (if 0 \<le> n then take (nat n) xs else take (length xs - nat (- n)) xs)"

text \<open>
  The handler \<open>except APIError as e\<close> of the three lookups: any other exception leaves
  the lookup.
\<close>

definition on_api_error :: "string \<Rightarrow> exn \<Rightarrow> exn + lookup_result" where
  "on_api_error q e =
     (case e of
        APIError m c n \<Rightarrow>
          Inr \<lparr>mode = ''error'', query = q, count = 0, candidates = [], context_rows = None,
               lookup_error = Some (m @ '' (retries: '' @ show_int n @ '')'')\<rparr>
      | _ \<Rightarrow> Inl e)"

text \<open>
  The context of a search-based code lookup: the range enumeration, and when that fails
  with an \<open>APIError\<close>, the exact-code export for an exact code; a second failure leaves
  no context.
\<close>

definition search_context :: "world \<Rightarrow> string \<Rightarrow> net \<Rightarrow> (exn + dict list option) \<times> net" where
  "search_context w qn st =
     (case fetch_range_enumeration w qn st of
        (Inr rows, st1) \<Rightarrow> (Inr (Some rows), st1)
      | (Inl (APIError m c n), st1) \<Rightarrow>
          if is_exact_hts_code qn then
            (case fetch_exportlist w qn qn st1 of
               (Inr rows, st2) \<Rightarrow> (Inr (Some rows), st2)
             | (Inl (APIError m2 c2 n2), st2) \<Rightarrow> (Inr None, st2)
             | (Inl e, st2) \<Rightarrow> (Inl e, st2))
          else (Inr None, st1)
      | (Inl e, st1) \<Rightarrow> (Inl e, st1))"

text \<open>The rows of a code lookup and their context, by range or by search.\<close>

definition prefix_rows ::
  "world \<Rightarrow> string \<Rightarrow> bool \<Rightarrow> net \<Rightarrow> (exn + candidate list \<times> dict list option) \<times> net" where
  "prefix_rows w qn use_range st =
     (if use_range then
        (case fetch_range_enumeration w qn st of
           (Inl e, st1) \<Rightarrow> (Inl e, st1)
         | (Inr raw, st1) \<Rightarrow>
             (case extract_candidates_from_items raw of
                Inl e \<Rightarrow> (Inl e, st1)
              | Inr cands \<Rightarrow>
                  (Inr (filter_by_hts_prefix cands qn, if INCLUDE_CONTEXT then Some raw else None),
                   st1)))
      else
        (case fetch_search w qn st of
           (Inl e, st1) \<Rightarrow> (Inl e, st1)
         | (Inr raw, st1) \<Rightarrow>
             (case extract_candidates_from_items raw of
                Inl e \<Rightarrow> (Inl e, st1)
              | Inr cands \<Rightarrow>
                  if INCLUDE_CONTEXT then
                    (case search_context w qn st1 of
                       (Inl e, st2) \<Rightarrow> (Inl e, st2)
                     | (Inr context, st2) \<Rightarrow> (Inr (filter_by_hts_prefix cands qn, context), st2))
                  else (Inr (filter_by_hts_prefix cands qn, None), st1))))"

definition lookup_hts ::
  "world \<Rightarrow> string \<Rightarrow> int \<Rightarrow> bool \<Rightarrow> net \<Rightarrow> (exn + lookup_result) \<times> net" where
  "lookup_hts w q max_results use_range st =
     (let qn = normalize_hts_input q in
      case prefix_rows w qn use_range st of
        (Inl e, st1) \<Rightarrow> (on_api_error qn e, st1)
      | (Inr (cands0, context), st1) \<Rightarrow>
          (let cands = dedupe_candidates cands0;
               mode0 = (if use_range then ''hts_range'' else ''hts_prefix'')
           in (Inr \<lparr>mode = (if is_exact_hts_code qn then ''exact_hts'' else mode0),
                    query = qn, count = length cands,
                    candidates = slice_to max_results cands,
                    context_rows = context, lookup_error = None\<rparr>, st1)))"

definition lookup_keyword :: "world \<Rightarrow> string \<Rightarrow> int \<Rightarrow> net \<Rightarrow> (exn + lookup_result) \<times> net" where
  "lookup_keyword w q max_results st =
     (case fetch_search w q st of
        (Inl e, st1) \<Rightarrow> (on_api_error q e, st1)
      | (Inr raw, st1) \<Rightarrow>
          (case extract_candidates_from_items raw of
             Inl e \<Rightarrow> (Inl e, st1)
           | Inr cands0 \<Rightarrow>
               (let cands = dedupe_candidates cands0 in
                (Inr \<lparr>mode = ''keyword'', query = q, count = length cands,
                      candidates = slice_to max_results cands,
                      context_rows = None, lookup_error = None\<rparr>, st1))))"

text \<open>
  The rows of a hybrid lookup. In the search-based branch a failed context fetch is
  dropped.
\<close>

definition hybrid_rows ::
  "world \<Rightarrow> string \<Rightarrow> bool \<Rightarrow> net \<Rightarrow> (exn + candidate list \<times> dict list option) \<times> net" where
  "hybrid_rows w hts_prefix use_range st =
     (if use_range then
        (case fetch_range_enumeration w hts_prefix st of
           (Inl e, st1) \<Rightarrow> (Inl e, st1)
         | (Inr raw, st1) \<Rightarrow>
             (case extract_candidates_from_items raw of
                Inl e \<Rightarrow> (Inl e, st1)
              | Inr cands \<Rightarrow>
                  (Inr (filter_by_hts_prefix cands hts_prefix,
                        if INCLUDE_CONTEXT then Some raw else None), st1)))
      else
        (case fetch_search w hts_prefix st of
           (Inl e, st1) \<Rightarrow> (Inl e, st1)
         | (Inr raw, st1) \<Rightarrow>
             (case extract_candidates_from_items raw of
                Inl e \<Rightarrow> (Inl e, st1)
              | Inr cands \<Rightarrow>
                  if INCLUDE_CONTEXT then
                    (case fetch_range_enumeration w hts_prefix st1 of
                       (Inr rows, st2) \<Rightarrow>
                         (Inr (filter_by_hts_prefix cands hts_prefix, Some rows), st2)
                     | (Inl (APIError m c n), st2) \<Rightarrow>
                         (Inr (filter_by_hts_prefix cands hts_prefix, None), st2)
                     | (Inl e, st2) \<Rightarrow> (Inl e, st2))
                  else (Inr (filter_by_hts_prefix cands hts_prefix, None), st1))))"

definition lookup_hybrid ::
  "world \<Rightarrow> string \<Rightarrow> string \<Rightarrow> int \<Rightarrow> bool \<Rightarrow> net \<Rightarrow> (exn + lookup_result) \<times> net" where
  "lookup_hybrid w hts_prefix keyword max_results use_range st =
     (case hybrid_rows w hts_prefix use_range st of
        (Inl e, st1) \<Rightarrow> (on_api_error (hts_prefix @ '' '' @ keyword) e, st1)
      | (Inr (cands0, context), st1) \<Rightarrow>
          (let cands = dedupe_candidates (filter_by_keyword cands0 keyword) in
           (Inr \<lparr>mode = ''hybrid'',
                 query = hts_prefix @ '' + '' @ [CHR 0x27] @ keyword @ [CHR 0x27],
                 count = length cands,
                 candidates = slice_to max_results cands,
                 context_rows = context, lookup_error = None\<rparr>, st1)))"

definition mapping_lookup ::
  "world \<Rightarrow> string \<Rightarrow> int \<Rightarrow> bool \<Rightarrow> net \<Rightarrow> (exn + lookup_result) \<times> net" where
  "mapping_lookup w query0 max_results use_range st =
     (let q = strip query0 in
      if q = [] then
        (Inr \<lparr>mode = ''empty'', query = [], count = 0, candidates = [],
              context_rows = None, lookup_error = None\<rparr>, st)
      else
        (case parse_hybrid_query q of
           (Some hts_prefix, Some keyword_filter) \<Rightarrow>
             if hts_prefix \<noteq> [] \<and> keyword_filter \<noteq> []
             then lookup_hybrid w hts_prefix keyword_filter max_results use_range st
             else if is_hts_like q then lookup_hts w q max_results use_range st
             else lookup_keyword w q max_results st
         | _ \<Rightarrow>
             if is_hts_like q then lookup_hts w q max_results use_range st
             else lookup_keyword w q max_results st))"

section \<open>Predicates of the claims\<close>

text \<open>
  A rate field is blank when it is missing, falsy or a string of white space only: the
  duty-rate test reads it as the empty string. A field is a string or absent/None.
\<close>

definition rates_blank :: "dict \<Rightarrow> bool" where
  "rates_blank item = list_all (\<lambda>f. clean_text (dict_get item f JNull) = Inr []) rate_fields"

fun str_or_none :: "jval \<Rightarrow> bool" where
  "str_or_none JNull = True"
| "str_or_none (JStr t) = True"
| "str_or_none v = False"

definition rates_typed :: "dict \<Rightarrow> bool" where
  "rates_typed item = list_all (\<lambda>f. str_or_none (dict_get item f JNull)) rate_fields"

definition code_typed :: "dict \<Rightarrow> bool" where
  "code_typed item = str_or_none (dict_get item ''htsno'' JNull)"

text \<open>
  The failures the retry policy calls retryable: a timeout, a connection failure, and a
  response with status 429 or 5xx.
\<close>

definition retryable :: "outcome \<Rightarrow> bool" where
  "retryable out =
     (case out of
        Timeout \<Rightarrow> True
      | ConnectionError t \<Rightarrow> True
      | Returned r \<Rightarrow> resp_status r = 429 \<or> (500 \<le> resp_status r \<and> resp_status r < 600)
      | RequestException t \<Rightarrow> False)"

text \<open>
  The candidates a lookup has extracted, before deduplication and truncation, for a
  result of the given mode: none for an empty query; for a keyword query the candidates
  extracted from the rows of the search; for a code query those extracted from the rows
  of the range enumeration (or of the search, when ranges are not used) and filtered by
  the prefix; for a hybrid query the same for its prefix, filtered by its keyword.
\<close>

definition found_candidates ::
  "world \<Rightarrow> string \<Rightarrow> bool \<Rightarrow> net \<Rightarrow> lookup_result \<Rightarrow> candidate list \<Rightarrow> bool" where
  "found_candidates w query0 use_range st r cands =
     (if mode r = ''empty'' then cands = []
      else if mode r = ''keyword'' then
        (\<exists>rows. fst (fetch_search w (strip query0) st) = Inr rows
           \<and> extract_candidates_from_items rows = Inr cands)
      else if mode r = ''hybrid'' then
        (\<exists>p k rows ex. parse_hybrid_query (strip query0) = (Some p, Some k)
           \<and> fst (if use_range then fetch_range_enumeration w p st else fetch_search w p st)
               = Inr rows
           \<and> extract_candidates_from_items rows = Inr ex
           \<and> cands = filter_by_keyword (filter_by_hts_prefix ex p) k)
      else
        (\<exists>rows ex.
           fst (if use_range
                then fetch_range_enumeration w (normalize_hts_input (strip query0)) st
                else fetch_search w (normalize_hts_input (strip query0)) st) = Inr rows
           \<and> extract_candidates_from_items rows = Inr ex
           \<and> cands = filter_by_hts_prefix ex (normalize_hts_input (strip query0))))"

text \<open>
  A result counts a candidate list when its count is the length of the deduplicated list
  and its candidates are the slice of the deduplicated list.
\<close>

definition counted :: "int \<Rightarrow> lookup_result \<Rightarrow> candidate list \<Rightarrow> bool" where
  "counted n r cands = (count r = length (dedupe_candidates cands)
                        \<and> candidates r = slice_to n (dedupe_candidates cands))"

text \<open>
  The digits of a string are its decimal digits, in order. A full dotted code is ten
  decimal digits in groups of 4, 2, 2 and 2 separated by dots. A prefix is code-like when
  it is made of digits, dots and spaces.
\<close>

definition digits_of :: "string \<Rightarrow> string" where
  "digits_of t = filter is_decimal t"

definition full_code :: "string \<Rightarrow> bool" where
  "full_code c =
     (length c = 13
      \<and> list_all (\<lambda>i. if i \<in> set [4, 7, 10] then c ! i = CHR ''.'' else is_decimal (c ! i))
           [0..<13])"

definition code_like :: "string \<Rightarrow> bool" where
  "code_like p = list_all (\<lambda>c. is_decimal c \<or> c = CHR ''.'' \<or> c = CHR '' '') p"

text \<open>The description of the requested line of a result is a string or absent/None.\<close>

definition description_typed :: "hts_result \<Rightarrow> bool" where
  "description_typed r =
     (case requested_line r of
        None \<Rightarrow> True
      | Some line \<Rightarrow> str_or_none (dict_get line ''description'' JNull))"

section \<open>Example inputs\<close>

text \<open>A service that answers every request with status 200 and an empty list.\<close>

definition empty_world :: world where
  "empty_world = (\<lambda>url ps k. Returned \<lparr>resp_status = 200, resp_reason = ''OK'', resp_url = url,
      resp_body = JsonRows []\<rparr>)"

definition net0 :: net where
  "net0 = \<lparr>clock = 0, slept = []\<rparr>"

text \<open>
  The rows of code 0901.21.00.00 and of its three ancestors: only the heading 0901 carries
  a rate.
\<close>

definition row10 :: dict where
  "row10 = [(''htsno'', JStr ''0901.21.00.00''), (''description'', JStr ''Not decaffeinated''),
            (''general'', JStr []), (''special'', JStr []), (''other'', JStr []),
            (''units'', JList [JStr ''kg''])]"

definition row8 :: dict where
  "row8 = [(''htsno'', JStr ''0901.21.00''), (''general'', JStr '' ''), (''special'', JNull)]"

definition row6 :: dict where
  "row6 = [(''htsno'', JStr ''0901.21'')]"

definition row4 :: dict where
  "row4 = [(''htsno'', JStr ''0901''), (''description'', JStr ''Coffee''),
           (''general'', JStr ''Free'')]"

text \<open>Services that time out on every attempt, or answer every request with 404.\<close>

definition timeout_world :: world where
  "timeout_world = (\<lambda>url ps k. Timeout)"

definition not_found_world :: world where
  "not_found_world = (\<lambda>url ps k. Returned \<lparr>resp_status = 404, resp_reason = ''Not Found'',
      resp_url = url, resp_body = BadJson []\<rparr>)"

text \<open>A service that times out twice and then answers with an empty list.\<close>

definition flaky_world :: world where
  "flaky_world = (\<lambda>url ps k. if k < 2 then Timeout else empty_world url ps k)"

text \<open>
  A service that knows the four rows above: an export of the range from a code to itself
  returns the row of that code, any other request an empty list.
\<close>

definition coffee_rows :: "params \<Rightarrow> dict list" where
  "coffee_rows ps =
     (case map_of ps ''from'' of
        None \<Rightarrow> []
      | Some c \<Rightarrow>
          if c = ''0901.21.00.00'' then [row10]
          else if c = ''0901.21.00'' then [row8]
          else if c = ''0901.21'' then [row6]
          else if c = ''0901'' then [row4]
          else [])"

definition coffee_world :: world where
  "coffee_world = (\<lambda>url ps k. Returned \<lparr>resp_status = 200, resp_reason = ''OK'', resp_url = url,
      resp_body = JsonRows (coffee_rows ps)\<rparr>)"

text \<open>A service that answers every request with the same two coffee rows.\<close>

definition two_rows :: "dict list" where
  "two_rows = [[(''htsno'', JStr ''0901.11.00''), (''description'', JStr ''Coffee, not roasted'')],
               [(''htsno'', JStr ''0901.21.00''), (''description'', JStr ''Coffee, roasted'')]]"

definition two_world :: world where
  "two_world = (\<lambda>url ps k. Returned \<lparr>resp_status = 200, resp_reason = ''OK'', resp_url = url,
      resp_body = JsonRows two_rows\<rparr>)"

text \<open>The prefix 61 typed with a tab between its digits.\<close>

definition tab_prefix :: string where
  "tab_prefix = [CHR ''6'', CHR 0x09, CHR ''1'']"

text \<open>The result of resolving code 0901.21.00.00 against the service of the four rows.\<close>

definition coffee_result :: hts_result where
  "coffee_result = fst (search_hts_quantitative_details coffee_world ''0901.21.00.00'' net0)"

section \<open>Query classification\<close>

lemma parse_hybrid_61_cotton: "parse_hybrid_query ''61 cotton'' = (Some ''61'', Some ''cotton'')"
  by code_simp

lemma parse_hybrid_code: "parse_hybrid_query ''8471300000'' = (None, None)"
  by code_simp

lemma parse_hybrid_coffee: "parse_hybrid_query ''coffee'' = (None, None)"
  by code_simp

lemma strip_61_cotton: "strip ''61 cotton'' = ''61 cotton''"
  by code_simp

lemma strip_code: "strip ''8471300000'' = ''8471300000''"
  by code_simp

lemma strip_coffee: "strip ''coffee'' = ''coffee''"
  by code_simp

lemma hts_like_code: "is_hts_like ''8471300000''"
  by code_simp

lemma not_hts_like_coffee: "\<not> is_hts_like ''coffee''"
  by code_simp

lemma exact_code: "is_exact_hts_code ''8471300000''"
  by code_simp

lemma normalize_code: "normalize_hts_input ''8471300000'' = ''8471300000''"
  by code_simp

lemma digits_len_code: "hts_digits_len ''8471300000'' = 10"
  by code_simp

lemma on_api_error_mode: "on_api_error q e = Inr r \<Longrightarrow> mode r = ''error''"
  by (auto simp: on_api_error_def split: exn.splits)

lemma lookup_hybrid_mode:
  "fst (lookup_hybrid w p k n u st) = Inr r \<Longrightarrow> mode r = ''hybrid'' \<or> mode r = ''error''"
  by (auto simp: lookup_hybrid_def Let_def split: prod.splits sum.splits
      dest: on_api_error_mode)

lemma lookup_keyword_mode:
  "fst (lookup_keyword w q n st) = Inr r \<Longrightarrow> mode r = ''keyword'' \<or> mode r = ''error''"
  by (auto simp: lookup_keyword_def Let_def split: prod.splits sum.splits
      dest: on_api_error_mode)

lemma lookup_hts_mode:
  "fst (lookup_hts w q n u st) = Inr r \<Longrightarrow> is_exact_hts_code (normalize_hts_input q)
     \<Longrightarrow> mode r = ''exact_hts'' \<or> mode r = ''error''"
  by (auto simp: lookup_hts_def Let_def split: prod.splits sum.splits
      dest: on_api_error_mode)

text \<open>
  C8. \<open>mapping_lookup\<close> treats \<open>"61 cotton"\<close> as a hybrid query with prefix \<open>"61"\<close> and
  keyword \<open>"cotton"\<close>, \<open>"8471300000"\<close> as an exact code (it is code-like, has 10 digits,
  and 10 is in the set 4, 6, 8, 10) and \<open>"coffee"\<close> as a keyword query: each input is
  handed to the lookup of its kind, and a result that is not an error carries the mode
  \<open>hybrid\<close>, \<open>exact_hts\<close> and \<open>keyword\<close>.
\<close>

theorem classify_examples:
  "parse_hybrid_query ''61 cotton'' = (Some ''61'', Some ''cotton'')
   \<and> mapping_lookup w ''61 cotton'' n u st = lookup_hybrid w ''61'' ''cotton'' n u st
   \<and> (\<forall>r. fst (mapping_lookup w ''61 cotton'' n u st) = Inr r \<and> mode r \<noteq> ''error''
          \<longrightarrow> mode r = ''hybrid'')
   \<and> is_hts_like ''8471300000'' \<and> is_exact_hts_code ''8471300000''
   \<and> hts_digits_len ''8471300000'' = 10 \<and> (10::nat) \<in> set [4, 6, 8, 10]
   \<and> mapping_lookup w ''8471300000'' n u st = lookup_hts w ''8471300000'' n u st
   \<and> (\<forall>r. fst (mapping_lookup w ''8471300000'' n u st) = Inr r \<and> mode r \<noteq> ''error''
          \<longrightarrow> mode r = ''exact_hts'')
   \<and> \<not> is_hts_like ''coffee''
   \<and> mapping_lookup w ''coffee'' n u st = lookup_keyword w ''coffee'' n st
   \<and> (\<forall>r. fst (mapping_lookup w ''coffee'' n u st) = Inr r \<and> mode r \<noteq> ''error''
          \<longrightarrow> mode r = ''keyword'')"
proof -
  have a: "mapping_lookup w ''61 cotton'' n u st = lookup_hybrid w ''61'' ''cotton'' n u st"
    unfolding mapping_lookup_def strip_61_cotton Let_def parse_hybrid_61_cotton by simp
  have b: "mapping_lookup w ''8471300000'' n u st = lookup_hts w ''8471300000'' n u st"
    unfolding mapping_lookup_def strip_code Let_def parse_hybrid_code using hts_like_code by simp
  have c: "mapping_lookup w ''coffee'' n u st = lookup_keyword w ''coffee'' n st"
    unfolding mapping_lookup_def strip_coffee Let_def parse_hybrid_coffee
    using not_hts_like_coffee by simp
  have ex: "is_exact_hts_code (normalize_hts_input ''8471300000'')"
    unfolding normalize_code by (rule exact_code)
  show ?thesis
    unfolding a b c
    using parse_hybrid_61_cotton hts_like_code exact_code digits_len_code not_hts_like_coffee
      lookup_hybrid_mode lookup_keyword_mode lookup_hts_mode[OF _ ex]
    by (intro conjI allI impI; (simp; fail)?; blast)
qed

lemma empty_world_hybrid:
  "fst (mapping_lookup empty_world ''61 cotton'' 5 True net0)
     = Inr \<lparr>mode = ''hybrid'', query = ''61 + '' @ [CHR 0x27] @ ''cotton'' @ [CHR 0x27],
            count = 0, candidates = [], context_rows = Some [], lookup_error = None\<rparr>"
  by code_simp

lemma empty_world_exact:
  "fst (mapping_lookup empty_world ''8471300000'' 5 True net0)
     = Inr \<lparr>mode = ''exact_hts'', query = ''8471300000'', count = 0, candidates = [],
            context_rows = Some [], lookup_error = None\<rparr>"
  by code_simp

lemma empty_world_keyword:
  "fst (mapping_lookup empty_world ''coffee'' 5 True net0)
     = Inr \<lparr>mode = ''keyword'', query = ''coffee'', count = 0, candidates = [],
            context_rows = None, lookup_error = None\<rparr>"
  by code_simp

theorem classify_examples_witness:
  "(\<exists>r. fst (mapping_lookup empty_world ''61 cotton'' 5 True net0) = Inr r
        \<and> mode r \<noteq> ''error'' \<and> mode r = ''hybrid'')
   \<and> (\<exists>r. fst (mapping_lookup empty_world ''8471300000'' 5 True net0) = Inr r
        \<and> mode r \<noteq> ''error'' \<and> mode r = ''exact_hts'')
   \<and> (\<exists>r. fst (mapping_lookup empty_world ''coffee'' 5 True net0) = Inr r
        \<and> mode r \<noteq> ''error'' \<and> mode r = ''keyword'')"
proof -
  note t = classify_examples [of empty_world 5 True net0]
  let ?h = "\<lparr>mode = ''hybrid'', query = ''61 + '' @ [CHR 0x27] @ ''cotton'' @ [CHR 0x27],
            count = 0, candidates = [], context_rows = Some [], lookup_error = None\<rparr>"
  let ?x = "\<lparr>mode = ''exact_hts'', query = ''8471300000'', count = 0, candidates = [],
            context_rows = Some [], lookup_error = None\<rparr>"
  let ?k = "\<lparr>mode = ''keyword'', query = ''coffee'', count = 0, candidates = [],
            context_rows = None, lookup_error = None\<rparr>"
  have nh: "mode ?h \<noteq> ''error''" and nx: "mode ?x \<noteq> ''error''" and nk: "mode ?k \<noteq> ''error''"
    by simp_all
  have "mode ?h = ''hybrid''"
    using t empty_world_hybrid nh by blast
  moreover have "mode ?x = ''exact_hts''"
    using t empty_world_exact nx by blast
  moreover have "mode ?k = ''keyword''"
    using t empty_world_keyword nk by blast
  ultimately show ?thesis
    using empty_world_hybrid empty_world_exact empty_world_keyword nh nx nk by blast
qed

section \<open>Hierarchy resolution\<close>

lemma blank_any_rate: "rates_blank item \<Longrightarrow> any_rate item rate_fields = Inr False"
  by (simp add: rates_blank_def rate_fields_def)

lemma ancestors_example:
  "get_ancestor_codes ''0901.21.00.00'' = [''0901.21.00'', ''0901.21'', ''0901'']"
  by code_simp

text \<open>
  C6. The ancestors of \<open>"0901.21.00.00"\<close> are \<open>"0901.21.00"\<close>, \<open>"0901.21"\<close> and
  \<open>"0901"\<close>, in that order. When the requested row and the 8- and 6-digit rows have
  blank rates and the 4-digit row has a non-blank general rate, the effective duty line
  is the 4-digit row and the fallback chain lists the four codes, the 4-digit code last.
\<close>

theorem hierarchy_example:
  assumes c10: "clean_text (dict_get req ''htsno'' (JStr [])) = Inr ''0901.21.00.00''"
    and c8: "clean_text (dict_get a8 ''htsno'' (JStr [])) = Inr ''0901.21.00''"
    and c6: "clean_text (dict_get a6 ''htsno'' (JStr [])) = Inr ''0901.21''"
    and c4: "clean_text (dict_get a4 ''htsno'' (JStr [])) = Inr ''0901''"
    and blank: "rates_blank req" "rates_blank a8" "rates_blank a6"
    and rate: "dict_get a4 ''general'' JNull = JStr g" "strip g \<noteq> []"
  shows "get_ancestor_codes ''0901.21.00.00'' = [''0901.21.00'', ''0901.21'', ''0901'']
     \<and> resolve_effective_duty_line (Some req) [a8, a6, a4] ''0901.21.00.00''
         = Inr (Some a4, [''0901.21.00.00'', ''0901.21.00'', ''0901.21'', ''0901''])"
proof -
  have ne: "req \<noteq> []"
    using c10 by (auto simp: dict_get_def clean_text_def)
  have start: "start_candidates (Some req) = Inr ([req], [''0901.21.00.00''])"
    using ne c10 by (simp add: start_candidates_def)
  have anc: "add_ancestors [a8, a6, a4] [req] [''0901.21.00.00'']
      = Inr ([req, a8, a6, a4], [''0901.21.00.00'', ''0901.21.00'', ''0901.21'', ''0901''])"
    using c8 c6 c4 by simp
  have gne: "g \<noteq> []"
    using rate(2) by (auto simp: strip_def lstrip_def rstrip_def)
  have r4: "any_rate a4 rate_fields = Inr True"
    using rate gne by (simp add: rate_fields_def clean_text_def)
  have first: "first_with_rate [req, a8, a6, a4] = Inr (Some a4)"
    using blank_any_rate[OF blank(1)] blank_any_rate[OF blank(2)] blank_any_rate[OF blank(3)] r4
    by simp
  show ?thesis
    using ancestors_example start anc first
    by (simp add: resolve_effective_duty_line_def)
qed

theorem hierarchy_example_witness:
  "get_ancestor_codes ''0901.21.00.00'' = [''0901.21.00'', ''0901.21'', ''0901'']
   \<and> resolve_effective_duty_line (Some row10) [row8, row6, row4] ''0901.21.00.00''
       = Inr (Some row4, [''0901.21.00.00'', ''0901.21.00'', ''0901.21'', ''0901''])"
proof -
  have 1: "clean_text (dict_get row10 ''htsno'' (JStr [])) = Inr ''0901.21.00.00''"
    by code_simp
  have 2: "clean_text (dict_get row8 ''htsno'' (JStr [])) = Inr ''0901.21.00''"
    by code_simp
  have 3: "clean_text (dict_get row6 ''htsno'' (JStr [])) = Inr ''0901.21''"
    by code_simp
  have 4: "clean_text (dict_get row4 ''htsno'' (JStr [])) = Inr ''0901''"
    by code_simp
  have 5: "rates_blank row10" by code_simp
  have 6: "rates_blank row8" by code_simp
  have 7: "rates_blank row6" by code_simp
  have 8: "dict_get row4 ''general'' JNull = JStr ''Free''" by code_simp
  have 9: "strip ''Free'' \<noteq> []" by code_simp
  from hierarchy_example [OF 1 2 3 4 5 6 7 8 9] show ?thesis .
qed

subsection \<open>Totality of the resolution\<close>

lemma clean_text_typed: "str_or_none v \<Longrightarrow> \<exists>t. clean_text v = Inr t"
  by (cases v) (auto simp: clean_text_def)

lemma clean_code_typed:
  "code_typed item \<Longrightarrow> \<exists>t. clean_text (dict_get item ''htsno'' (JStr [])) = Inr t"
  by (auto simp: code_typed_def dict_get_def clean_text_def split: option.splits jval.splits)

lemma any_rate_typed_aux:
  "list_all (\<lambda>f. str_or_none (dict_get item f JNull)) fs \<Longrightarrow> \<exists>b. any_rate item fs = Inr b"
proof (induction fs)
  case Nil
  then show ?case by auto
next
  case (Cons f fs)
  from Cons.prems have "str_or_none (dict_get item f JNull)" by simp
  from clean_text_typed[OF this] obtain t where "clean_text (dict_get item f JNull) = Inr t"
    by blast
  with Cons show ?case by (cases "t = []") auto
qed

lemma any_rate_typed: "rates_typed item \<Longrightarrow> \<exists>b. any_rate item rate_fields = Inr b"
  unfolding rates_typed_def by (rule any_rate_typed_aux)

lemma first_with_rate_typed:
  "list_all rates_typed cands \<Longrightarrow> \<exists>l. first_with_rate cands = Inr l"
proof (induction cands)
  case Nil
  then show ?case by simp
next
  case (Cons c cs)
  from Cons.prems have "rates_typed c" by simp
  from any_rate_typed[OF this] obtain b where "any_rate c rate_fields = Inr b" by blast
  with Cons show ?case by (cases b) auto
qed

lemma add_ancestors_typed:
  "list_all code_typed items \<Longrightarrow>
     \<exists>cs' ch'. add_ancestors items cs ch = Inr (cs', ch') \<and> set cs' \<subseteq> set cs \<union> set items"
proof (induction items arbitrary: cs ch)
  case Nil
  then show ?case by simp
next
  case (Cons i items)
  from Cons.prems have "code_typed i" by simp
  from clean_code_typed[OF this] obtain t where
    t: "clean_text (dict_get i ''htsno'' (JStr [])) = Inr t" by blast
  have rest: "list_all code_typed items" using Cons.prems by simp
  show ?case
  proof (cases "t \<noteq> [] \<and> t \<notin> set ch")
    case True
    from Cons.IH[OF rest, of "cs @ [i]" "ch @ [t]"] t True show ?thesis by auto
  next
    case False
    from Cons.IH[OF rest, of cs ch] t False show ?thesis by auto
  qed
qed

lemma start_candidates_typed:
  "(case req of None \<Rightarrow> True | Some l \<Rightarrow> code_typed l) \<Longrightarrow>
     \<exists>cs ch. start_candidates req = Inr (cs, ch) \<and> set cs \<subseteq> set_option req"
  by (cases req) (auto simp: start_candidates_def dest!: clean_code_typed)

text \<open>
  C10 (as amended). \<open>resolve_effective_duty_line\<close> returns a (line, chain) pair whenever
  the \<open>htsno\<close>, \<open>general\<close>, \<open>special\<close> and \<open>other\<close> fields of the requested line (if
  there is one) and of every ancestor line are strings or absent/None.
\<close>

theorem resolve_total:
  assumes req: "case requested of None \<Rightarrow> True | Some line \<Rightarrow> code_typed line \<and> rates_typed line"
    and anc: "list_all (\<lambda>item. code_typed item \<and> rates_typed item) ancestor_lines"
  shows "\<exists>line chain.
           resolve_effective_duty_line requested ancestor_lines target = Inr (line, chain)"
proof -
  from req have "case requested of None \<Rightarrow> True | Some l \<Rightarrow> code_typed l"
    by (cases requested) auto
  from start_candidates_typed[OF this] obtain cs ch where
    s: "start_candidates requested = Inr (cs, ch)" and sub: "set cs \<subseteq> set_option requested"
    by blast
  from anc have "list_all code_typed ancestor_lines" by (simp add: list_all_iff)
  from add_ancestors_typed[OF this, of cs ch] obtain cs' ch' where
    a: "add_ancestors ancestor_lines cs ch = Inr (cs', ch')"
    and sub': "set cs' \<subseteq> set cs \<union> set ancestor_lines" by blast
  have "list_all rates_typed cs'"
    using sub sub' req anc by (cases requested) (auto simp: list_all_iff)
  from first_with_rate_typed[OF this] obtain l where "first_with_rate cs' = Inr l" by blast
  with s a show ?thesis by (simp add: resolve_effective_duty_line_def)
qed

theorem resolve_total_witness:
  "\<exists>line chain.
     resolve_effective_duty_line (Some row10) [row8, row6, row4] ''0901.21.00.00''
       = Inr (line, chain)"
proof -
  have 1: "case Some row10 of None \<Rightarrow> True | Some line \<Rightarrow> code_typed line \<and> rates_typed line"
    by code_simp
  have 2: "list_all (\<lambda>item. code_typed item \<and> rates_typed item) [row8, row6, row4]"
    by code_simp
  from resolve_total [OF 1 2] show ?thesis .
qed

text \<open>
  The claim as stated constrains the three rate fields only. A requested line whose
  \<open>htsno\<close> is the number 901 has no rate field at all, and the resolution raises on
  its code.
\<close>

theorem resolve_raises_on_code:
  "(case Some [(''htsno'', JInt 901)] of None \<Rightarrow> True | Some line \<Rightarrow> rates_typed line)
   \<and> list_all rates_typed []
   \<and> resolve_effective_duty_line (Some [(''htsno'', JInt 901)]) [] ''0901''
       = Inl (AttributeError (no_attribute ''int'' ''strip''))"
  by code_simp

section \<open>The retry policy\<close>

lemma attempts_three: "[0..<nat MAX_RETRIES] = [0, 1, 2]"
  by code_simp

lemma upper_get:
  "ascii_upper CHR ''G'' = CHR ''G''" "ascii_upper CHR ''E'' = CHR ''E''"
  "ascii_upper CHR ''T'' = CHR ''T''"
  by code_simp+

lemma error_status_falsy:
  "raise_for_status r = Some t \<Longrightarrow> http_error_status (Some r) = None"
  by (simp add: http_error_status_def response_bool_def)

lemma http_error_retried:
  "raise_for_status r = Some t \<Longrightarrow>
     on_http_error (Some r) t k = Retry (APIError (''HTTP error: '' @ t) None (int k + 1))"
  by (simp add: on_http_error_def error_status_falsy)

lemma retryable_retry:
  "retryable out \<Longrightarrow> \<exists>e. attempt_once out timeout k = Retry e \<and> retries_attempted e = int k + 1"
  by (cases out)
    (auto simp: retryable_def attempt_once_def raise_for_status_def http_error_retried
      split: option.splits)

lemma backoff_clock: "clock (backoff m k st) = clock st"
  by (simp add: backoff_def)

lemma retry_loop_clock:
  "clock (snd (retry_loop w m url ps mr t as le st)) \<le> clock st + length as"
proof (induction as arbitrary: le st)
  case Nil
  then show ?case by simp
next
  case (Cons a as)
  show ?case
  proof (cases "attempt_once (w url ps (clock st)) t a")
    case (Retry e)
    have "clock (snd (retry_loop w m url ps mr t as (Some e)
             (backoff mr a (st\<lparr>clock := Suc (clock st)\<rparr>))))
          \<le> clock (backoff mr a (st\<lparr>clock := Suc (clock st)\<rparr>)) + length as"
      by (rule Cons.IH)
    with Retry show ?thesis by (simp add: backoff_clock)
  qed simp_all
qed

lemma step_retry:
  "attempt_once (w url ps (clock st)) t a = Retry e \<Longrightarrow>
   retry_loop w ''GET'' url ps mr t (a # as) le st
     = retry_loop w ''GET'' url ps mr t as (Some e) (backoff mr a (st\<lparr>clock := Suc (clock st)\<rparr>))"
  by (simp add: upper_get)

lemma step_done:
  "attempt_once (w url ps (clock st)) t a = Done r \<Longrightarrow>
   retry_loop w ''GET'' url ps mr t (a # as) le st = (Inr r, st\<lparr>clock := Suc (clock st)\<rparr>)"
  by (simp add: upper_get)

lemma backoff0: "backoff MAX_RETRIES 0 st = st\<lparr>slept := slept st @ [1]\<rparr>"
  by (simp add: backoff_def MAX_RETRIES_def RETRY_DELAY_SECONDS_def)
lemma backoff1: "backoff MAX_RETRIES 1 st = st\<lparr>slept := slept st @ [2]\<rparr>"
  by (simp add: backoff_def MAX_RETRIES_def RETRY_DELAY_SECONDS_def)
lemma backoff2: "backoff MAX_RETRIES 2 st = st"
  by (simp add: backoff_def MAX_RETRIES_def RETRY_DELAY_SECONDS_def)

lemma two_retries:
  assumes r0: "retryable (w url ps (clock st))" and r1: "retryable (w url ps (clock st + 1))"
  shows "\<exists>e. request_with_retry w ''GET'' url ps MAX_RETRIES t st
     = retry_loop w ''GET'' url ps MAX_RETRIES t [2] (Some e)
         (st\<lparr>clock := clock st + 2, slept := slept st @ [1, 2]\<rparr>)"
proof -
  from retryable_retry[OF r0] obtain e0 where
    e0: "attempt_once (w url ps (clock st)) t 0 = Retry e0" by blast
  let ?s1 = "backoff MAX_RETRIES 0 (st\<lparr>clock := Suc (clock st)\<rparr>)"
  have c1: "clock ?s1 = clock st + 1" by (simp add: backoff_clock)
  from retryable_retry[OF r1] obtain e1 where
    e1: "attempt_once (w url ps (clock ?s1)) t 1 = Retry e1" unfolding c1 by blast
  have "request_with_retry w ''GET'' url ps MAX_RETRIES t st
      = retry_loop w ''GET'' url ps MAX_RETRIES t [2] (Some e1)
          (backoff MAX_RETRIES 1 (?s1\<lparr>clock := Suc (clock ?s1)\<rparr>))"
    unfolding request_with_retry_def attempts_three
    by (simp only: step_retry[where w=w and url=url and ps=ps and st=st, OF e0]
        step_retry[where w=w and url=url and ps=ps and st="?s1", OF e1])
  also have "backoff MAX_RETRIES 1 (?s1\<lparr>clock := Suc (clock ?s1)\<rparr>)
      = st\<lparr>clock := clock st + 2, slept := slept st @ [1, 2]\<rparr>"
    by (simp add: backoff_def MAX_RETRIES_def RETRY_DELAY_SECONDS_def)
  finally show ?thesis by blast
qed

text \<open>
  C3. With the default of 3 retries the fetcher makes at most 3 attempts. When the first
  two attempts fail with retryable errors (timeouts among them) and the third succeeds,
  it returns the third response, having slept 1 and 2 seconds. When all three attempts
  fail with retryable errors it raises the error of the third attempt, whose
  \<open>retries_attempted\<close> is 3.
\<close>

theorem retry_policy:
  "clock (snd (request_with_retry w ''GET'' url ps MAX_RETRIES timeout st)) \<le> clock st + 3
   \<and> (retryable (w url ps (clock st)) \<and> retryable (w url ps (clock st + 1))
        \<and> w url ps (clock st + 2) = Returned r \<and> raise_for_status r = None
      \<longrightarrow> request_with_retry w ''GET'' url ps MAX_RETRIES timeout st
            = (Inr r, st\<lparr>clock := clock st + 3, slept := slept st @ [1, 2]\<rparr>))
   \<and> (retryable (w url ps (clock st)) \<and> retryable (w url ps (clock st + 1))
        \<and> retryable (w url ps (clock st + 2))
      \<longrightarrow> (\<exists>e. attempt_once (w url ps (clock st + 2)) timeout 2 = Retry e
             \<and> retries_attempted e = 3
             \<and> request_with_retry w ''GET'' url ps MAX_RETRIES timeout st
                 = (Inl e, st\<lparr>clock := clock st + 3, slept := slept st @ [1, 2]\<rparr>)))"
proof (intro conjI impI)
  have "clock (snd (retry_loop w ''GET'' url ps MAX_RETRIES timeout [0, 1, 2] None st))
      \<le> clock st + length [0::nat, 1, 2]"
    by (rule retry_loop_clock)
  then show "clock (snd (request_with_retry w ''GET'' url ps MAX_RETRIES timeout st)) \<le> clock st + 3"
    by (simp add: request_with_retry_def attempts_three)
next
  assume a: "retryable (w url ps (clock st)) \<and> retryable (w url ps (clock st + 1))
        \<and> w url ps (clock st + 2) = Returned r \<and> raise_for_status r = None"
  let ?s2 = "st\<lparr>clock := clock st + 2, slept := slept st @ [1, 2]\<rparr>"
  from a two_retries[of w url ps st timeout] obtain e where
    e: "request_with_retry w ''GET'' url ps MAX_RETRIES timeout st
      = retry_loop w ''GET'' url ps MAX_RETRIES timeout [2] (Some e) ?s2" by blast
  have "attempt_once (w url ps (clock ?s2)) timeout 2 = Done r"
    using a by (simp add: attempt_once_def)
  from step_done[where w=w and url=url and ps=ps and st="?s2", OF this] e
  show "request_with_retry w ''GET'' url ps MAX_RETRIES timeout st
            = (Inr r, st\<lparr>clock := clock st + 3, slept := slept st @ [1, 2]\<rparr>)"
    by simp
next
  assume a: "retryable (w url ps (clock st)) \<and> retryable (w url ps (clock st + 1))
        \<and> retryable (w url ps (clock st + 2))"
  let ?s2 = "st\<lparr>clock := clock st + 2, slept := slept st @ [1, 2]\<rparr>"
  from a two_retries[of w url ps st timeout] obtain e where
    e: "request_with_retry w ''GET'' url ps MAX_RETRIES timeout st
      = retry_loop w ''GET'' url ps MAX_RETRIES timeout [2] (Some e) ?s2" by blast
  from a retryable_retry[of "w url ps (clock st + 2)" timeout 2] obtain e2 where
    e2: "attempt_once (w url ps (clock st + 2)) timeout 2 = Retry e2" "retries_attempted e2 = 3"
    by auto
  have "attempt_once (w url ps (clock ?s2)) timeout 2 = Retry e2"
    using e2 by simp
  from step_retry[where w=w and url=url and ps=ps and st="?s2", OF this] e
  have "request_with_retry w ''GET'' url ps MAX_RETRIES timeout st
      = (Inl e2, st\<lparr>clock := clock st + 3, slept := slept st @ [1, 2]\<rparr>)"
    by (simp add: backoff2)
  with e2 show "\<exists>e. attempt_once (w url ps (clock st + 2)) timeout 2 = Retry e
             \<and> retries_attempted e = 3
             \<and> request_with_retry w ''GET'' url ps MAX_RETRIES timeout st
                 = (Inl e, st\<lparr>clock := clock st + 3, slept := slept st @ [1, 2]\<rparr>)"
    by blast
qed

lemma flaky_run:
  "request_with_retry flaky_world ''GET'' SEARCH_URL [(''keyword'', ''coffee'')] MAX_RETRIES
     REQUEST_TIMEOUT net0
   = (Inr \<lparr>resp_status = 200, resp_reason = ''OK'', resp_url = SEARCH_URL,
           resp_body = JsonRows []\<rparr>, \<lparr>clock = 3, slept = [1, 2]\<rparr>)"
  by code_simp

lemma timeout_run:
  "request_with_retry timeout_world ''GET'' SEARCH_URL [(''keyword'', ''coffee'')] MAX_RETRIES
     REQUEST_TIMEOUT net0
   = (Inl (APIError ''Request timed out after 30s'' None 3), \<lparr>clock = 3, slept = [1, 2]\<rparr>)"
  by code_simp

text \<open>
  C4 requires a 404 answer to end the request at once, with the status code and
  \<open>retries_attempted = 1\<close>. The code reads the status through the truth value of the
  response, which is false for every error status (\<open>error_status_falsy\<close>), so the
  handler never sees a status and retries (\<open>http_error_retried\<close>): against a service
  that always answers 404 the fetcher makes three attempts and raises an error without
  status code, \<open>retries_attempted = 3\<close>.
\<close>

theorem not_found_is_retried:
  "request_with_retry not_found_world ''GET'' SEARCH_URL [(''keyword'', ''coffee'')] MAX_RETRIES
     REQUEST_TIMEOUT net0
   = (Inl (APIError (''HTTP error: 404 Client Error: Not Found for url: '' @ SEARCH_URL) None 3),
      \<lparr>clock = 3, slept = [1, 2]\<rparr>)"
  by code_simp

theorem retry_policy_witness:
  "request_with_retry flaky_world ''GET'' SEARCH_URL [(''keyword'', ''coffee'')] MAX_RETRIES
       REQUEST_TIMEOUT net0
     = (Inr \<lparr>resp_status = 200, resp_reason = ''OK'', resp_url = SEARCH_URL,
             resp_body = JsonRows []\<rparr>,
        net0\<lparr>clock := clock net0 + 3, slept := slept net0 @ [1, 2]\<rparr>)
   \<and> (\<exists>e. retries_attempted e = 3
          \<and> request_with_retry timeout_world ''GET'' SEARCH_URL [(''keyword'', ''coffee'')]
               MAX_RETRIES REQUEST_TIMEOUT net0
             = (Inl e, net0\<lparr>clock := clock net0 + 3, slept := slept net0 @ [1, 2]\<rparr>))"
proof -
  let ?ps = "[(''keyword'', ''coffee'')]"
  let ?r = "\<lparr>resp_status = 200, resp_reason = ''OK'', resp_url = SEARCH_URL,
             resp_body = JsonRows []\<rparr>"
  have f0: "retryable (flaky_world SEARCH_URL ?ps (clock net0))" by code_simp
  have f1: "retryable (flaky_world SEARCH_URL ?ps (clock net0 + 1))" by code_simp
  have f2: "flaky_world SEARCH_URL ?ps (clock net0 + 2) = Returned ?r" by code_simp
  have f3: "raise_for_status ?r = None" by code_simp
  have t0: "retryable (timeout_world SEARCH_URL ?ps (clock net0))" by code_simp
  have t1: "retryable (timeout_world SEARCH_URL ?ps (clock net0 + 1))" by code_simp
  have t2: "retryable (timeout_world SEARCH_URL ?ps (clock net0 + 2))" by code_simp
  from retry_policy [of flaky_world SEARCH_URL ?ps REQUEST_TIMEOUT net0 ?r] f0 f1 f2 f3
  have a: "request_with_retry flaky_world ''GET'' SEARCH_URL ?ps MAX_RETRIES REQUEST_TIMEOUT net0
     = (Inr ?r, net0\<lparr>clock := clock net0 + 3, slept := slept net0 @ [1, 2]\<rparr>)"
    by blast
  from retry_policy [of timeout_world SEARCH_URL ?ps REQUEST_TIMEOUT net0] t0 t1 t2
  have b: "\<exists>e. retries_attempted e = 3
          \<and> request_with_retry timeout_world ''GET'' SEARCH_URL ?ps MAX_RETRIES REQUEST_TIMEOUT net0
             = (Inl e, net0\<lparr>clock := clock net0 + 3, slept := slept net0 @ [1, 2]\<rparr>)"
    by blast
  from a b show ?thesis by blast
qed

section \<open>Errors of the quantitative search\<close>

lemma fetch_row_api_error:
  "fst (fetch_exportlist w c c st) = Inl (APIError m s n) \<Longrightarrow> fst (fetch_hts_row w c st) = Inr None"
  by (cases "fetch_exportlist w c c st") (auto simp: fetch_hts_row_def)

lemma fetch_row_no_rows:
  "fst (fetch_exportlist w c c st) = Inr [] \<Longrightarrow> fst (fetch_hts_row w c st) = Inr None"
  by (cases "fetch_exportlist w c c st") (auto simp: fetch_hts_row_def)

lemma search_no_row:
  assumes "normalize_hts_input code = c" and "c \<noteq> []" and "fst (fetch_hts_row w c st) = Inr None"
  shows "fst (search_hts_quantitative_details w code st) = not_found c []"
  using assms
  by (cases "fetch_hts_row w c st")
     (auto simp: search_hts_quantitative_details_def search_body_def Let_def)

text \<open>
  C2 requires the error of a failed fetch of the exact row to carry the message and the
  retry count of the \<open>APIError\<close>. \<open>fetch_hts_row\<close> catches the \<open>APIError\<close> and returns
  \<open>None\<close>, so the handler of \<open>search_hts_quantitative_details\<close> is never reached: the
  result carries the not-found message, the same as when the service answers with an
  empty list.
\<close>

theorem api_error_reported_as_not_found:
  assumes "normalize_hts_input code = c" and "c \<noteq> []"
    and "fst (fetch_exportlist w c c st) = Inl (APIError m s n)
         \<or> fst (fetch_exportlist w c c st) = Inr []"
  shows "error_message (fst (search_hts_quantitative_details w code st))
           = JStr (''Exact HTS code not found: '' @ c)"
proof -
  from assms(3) have "fst (fetch_hts_row w c st) = Inr None"
    using fetch_row_api_error fetch_row_no_rows by blast
  from search_no_row[OF assms(1,2) this] show ?thesis
    by (simp add: not_found_def)
qed

lemma timeout_fetch:
  "fst (fetch_exportlist timeout_world ''0901.21.00.00'' ''0901.21.00.00'' net0)
     = Inl (APIError ''Request timed out after 30s'' None 3)"
  by code_simp

theorem api_error_reported_as_not_found_witness:
  "fst (fetch_exportlist timeout_world ''0901.21.00.00'' ''0901.21.00.00'' net0)
     = Inl (APIError ''Request timed out after 30s'' None 3)
   \<and> error_message (fst (search_hts_quantitative_details timeout_world ''0901.21.00.00'' net0))
     = JStr ''Exact HTS code not found: 0901.21.00.00''
   \<and> error_message (fst (search_hts_quantitative_details empty_world ''0901.21.00.00'' net0))
     = JStr ''Exact HTS code not found: 0901.21.00.00''"
proof -
  have n: "normalize_hts_input ''0901.21.00.00'' = ''0901.21.00.00''" by code_simp
  have ne: "''0901.21.00.00'' \<noteq> []" by simp
  have e: "fst (fetch_exportlist empty_world ''0901.21.00.00'' ''0901.21.00.00'' net0) = Inr []"
    by code_simp
  from api_error_reported_as_not_found [OF n ne disjI1, OF timeout_fetch]
       api_error_reported_as_not_found [OF n ne disjI2, OF e] timeout_fetch
  show ?thesis by simp
qed

section \<open>The resolved view\<close>

lemma map_of_overlay:
  "map_of (overlay_rates line fs res) f
     = (if f \<in> set fs \<and> rate_present (dict_get line f JNull)
        then Some (dict_get line f JNull) else map_of res f)"
  by (induction fs arbitrary: res) (auto simp: Let_def update_conv')

lemma dict_get_merge:
  assumes "e \<noteq> []" and "f \<in> set rate_fields"
  shows "dict_get (merge_resolved_view (Some q) (Some e)) f JNull
     = (if rate_present (dict_get e f JNull) then dict_get e f JNull else dict_get q f JNull)"
  using assms by (simp add: merge_resolved_view_def dict_get_def map_of_overlay)

lemma any_rate_False_iff:
  "any_rate item fs = Inr False \<Longrightarrow> g \<in> set fs \<Longrightarrow> clean_text (dict_get item g JNull) = Inr []"
  by (induction fs) (auto split: sum.splits if_splits)

lemma clean_blank_not_present: "clean_text v = Inr [] \<Longrightarrow> \<not> rate_present v"
  by (cases v) (auto simp: clean_text_def split: if_splits)

lemma any_rate_False_blank: "any_rate item rate_fields = Inr False \<Longrightarrow> rates_blank item"
  by (auto simp: rates_blank_def list_all_iff dest: any_rate_False_iff)

lemma blank_not_present:
  "rates_blank item \<Longrightarrow> g \<in> set rate_fields \<Longrightarrow> \<not> rate_present (dict_get item g JNull)"
  by (auto simp: rates_blank_def list_all_iff dest: clean_blank_not_present)

lemma add_ancestors_extends:
  "add_ancestors items cs ch = Inr (cs', ch') \<Longrightarrow> \<exists>ext. cs' = cs @ ext"
proof (induction items arbitrary: cs ch)
  case Nil
  then show ?case by simp
next
  case (Cons i items)
  then show ?case
    by (fastforce split: sum.splits if_splits)
qed

lemma any_rate_empty: "any_rate [] fs = Inr False"
  by (induction fs) (auto simp: dict_get_def clean_text_def)

lemma first_with_rate_nonempty: "first_with_rate cs = Inr (Some e) \<Longrightarrow> e \<noteq> []"
proof (induction cs)
  case Nil
  then show ?case by simp
next
  case (Cons c cs)
  then show ?case
    using any_rate_empty[of rate_fields]
    by (auto split: sum.splits bool.splits)
qed

lemma resolve_requested_first:
  assumes res: "resolve_effective_duty_line (Some q) ancs t = Inr (Some e, chain)"
    and q: "q \<noteq> []" and c: "clean_text (dict_get q ''htsno'' (JStr [])) = Inr code" "code \<noteq> []"
  shows "e \<noteq> [] \<and> (e = q \<or> rates_blank q)"
proof -
  have s: "start_candidates (Some q) = Inr ([q], [code])"
    using q c by (simp add: start_candidates_def)
  from res s obtain cs where
    a: "add_ancestors ancs [q] [code] = Inr (cs, chain)" and f: "first_with_rate cs = Inr (Some e)"
    by (auto simp: resolve_effective_duty_line_def split: sum.splits prod.splits)
  from add_ancestors_extends[OF a] obtain ext where cs: "cs = q # ext" by auto
  from f have ne: "e \<noteq> []" by (rule first_with_rate_nonempty)
  from f cs have "e = q \<or> any_rate q rate_fields = Inr False"
    by (auto split: sum.splits bool.splits)
  with ne show ?thesis using any_rate_False_blank by blast
qed

lemma search_success:
  assumes "search_hts_quantitative_details w code st = (r, st')" and "error_message r = JNull"
  shows "\<exists>q ancs chain c. requested_line r = Some q \<and> q \<noteq> [] \<and> c \<noteq> []
           \<and> clean_text (dict_get q ''htsno'' (JStr [])) = Inr c
           \<and> resolve_effective_duty_line (Some q) ancs c = Inr (effective_duty_line r, chain)
           \<and> resolved_view r = merge_resolved_view (Some q) (effective_duty_line r)"
  using assms
  unfolding search_hts_quantitative_details_def search_body_def resolve_found_def Let_def
    not_found_def new_result_def
  by (auto split: if_splits prod.splits sum.splits exn.splits option.splits; blast)

text \<open>
  C1. In every resolution that succeeds with an effective duty line, each rate field
  (\<open>general\<close>, \<open>special\<close>, \<open>other\<close>) that is non-blank in the resolved view has the
  value of the effective duty line. The requested row is the first candidate, so the
  effective line is the requested row itself unless all rates of the requested row are
  blank.
\<close>

theorem rates_from_effective_line:
  assumes run: "search_hts_quantitative_details w code st = (r, st')"
    and ok: "error_message r = JNull"
    and eff: "effective_duty_line r = Some e"
    and f: "f \<in> set rate_fields"
    and present: "rate_present (dict_get (resolved_view r) f JNull)"
  shows "dict_get (resolved_view r) f JNull = dict_get e f JNull
         \<and> (\<exists>q. requested_line r = Some q \<and> (e = q \<or> rates_blank q))"
proof -
  from search_success[OF run ok] eff obtain q ancs chain c where
    rq: "requested_line r = Some q" and q: "q \<noteq> []" and c: "c \<noteq> []"
    and code: "clean_text (dict_get q ''htsno'' (JStr [])) = Inr c"
    and res: "resolve_effective_duty_line (Some q) ancs c = Inr (Some e, chain)"
    and view: "resolved_view r = merge_resolved_view (Some q) (Some e)"
    by auto
  from resolve_requested_first[OF res q code c] have ne: "e \<noteq> []" and first: "e = q \<or> rates_blank q"
    by auto
  have v: "dict_get (resolved_view r) f JNull
     = (if rate_present (dict_get e f JNull) then dict_get e f JNull else dict_get q f JNull)"
    unfolding view by (rule dict_get_merge[OF ne f])
  from first have "dict_get (resolved_view r) f JNull = dict_get e f JNull"
  proof
    assume "e = q"
    with v show ?thesis by simp
  next
    assume "rates_blank q"
    from blank_not_present[OF this f] v present show ?thesis by (auto split: if_splits)
  qed
  with rq first show ?thesis by blast
qed

theorem rates_from_effective_line_witness:
  "\<exists>r st'. search_hts_quantitative_details coffee_world ''0901.21.00.00'' net0 = (r, st')
      \<and> error_message r = JNull \<and> effective_duty_line r = Some row4
      \<and> rate_present (dict_get (resolved_view r) ''general'' JNull)
      \<and> dict_get (resolved_view r) ''general'' JNull = dict_get row4 ''general'' JNull"
proof -
  let ?run = "search_hts_quantitative_details coffee_world ''0901.21.00.00'' net0"
  have run: "?run = (fst ?run, snd ?run)" by simp
  have ok: "error_message (fst ?run) = JNull" by code_simp
  have eff: "effective_duty_line (fst ?run) = Some row4" by code_simp
  have f: "''general'' \<in> set rate_fields" by code_simp
  have present: "rate_present (dict_get (resolved_view (fst ?run)) ''general'' JNull)"
    by code_simp
  from rates_from_effective_line [OF run ok eff f present] run ok eff present
  show ?thesis by blast
qed

section \<open>Truncation of the lookup results\<close>

lemma dedupe_from_unseen: "c \<in> set (dedupe_from seen cs) \<Longrightarrow> htsno c \<notin> set seen"
proof (induction cs arbitrary: seen)
  case Nil
  then show ?case by simp
next
  case (Cons a cs)
  show ?case
  proof (cases "htsno a \<in> set seen")
    case True
    with Cons show ?thesis by simp
  next
    case False
    with Cons.prems have "c = a \<or> c \<in> set (dedupe_from (htsno a # seen) cs)" by simp
    then show ?thesis
    proof
      assume "c = a"
      with False show ?thesis by simp
    next
      assume "c \<in> set (dedupe_from (htsno a # seen) cs)"
      from Cons.IH[OF this] show ?thesis by simp
    qed
  qed
qed

lemma dedupe_from_distinct: "distinct (map htsno (dedupe_from seen cs))"
proof (induction cs arbitrary: seen)
  case Nil
  then show ?case by simp
next
  case (Cons a cs)
  have "htsno a \<notin> htsno ` set (dedupe_from (htsno a # seen) cs)"
  proof
    assume "htsno a \<in> htsno ` set (dedupe_from (htsno a # seen) cs)"
    then obtain c where c: "c \<in> set (dedupe_from (htsno a # seen) cs)" and "htsno c = htsno a"
      by force
    with dedupe_from_unseen[OF c] show False by simp
  qed
  with Cons show ?case by simp
qed

lemma dedupe_distinct: "distinct (map htsno (dedupe_candidates cs))"
  by (simp add: dedupe_candidates_def dedupe_from_distinct)

lemma slice_to_length: "0 \<le> n \<Longrightarrow> int (length (slice_to n xs)) \<le> n"
  by (simp add: slice_to_def)

lemma slice_to_shorter: "0 \<le> n \<Longrightarrow> n < int (length xs) \<Longrightarrow> length (slice_to n xs) < length xs"
  by (auto simp: slice_to_def)


lemma slice_to_take: "0 \<le> n \<Longrightarrow> slice_to n xs = take (nat n) xs"
  by (simp add: slice_to_def)

lemma lookup_keyword_found:
  assumes "fst (lookup_keyword w q n st) = Inr r" and "mode r \<noteq> ''error''"
  shows "mode r = ''keyword''
     \<and> (\<exists>rows cands. fst (fetch_search w q st) = Inr rows
           \<and> extract_candidates_from_items rows = Inr cands
           \<and> count r = length (dedupe_candidates cands)
           \<and> candidates r = slice_to n (dedupe_candidates cands))"
  using assms
  by (cases "fetch_search w q st")
     (auto simp: lookup_keyword_def Let_def split: sum.splits dest: on_api_error_mode)

lemma prefix_rows_found:
  assumes "fst (prefix_rows w qn u st) = Inr (cands, ctx)"
  shows "\<exists>rows ex. fst (if u then fetch_range_enumeration w qn st else fetch_search w qn st)
             = Inr rows
           \<and> extract_candidates_from_items rows = Inr ex
           \<and> cands = filter_by_hts_prefix ex qn"
  using assms
  by (cases u; cases "fetch_range_enumeration w qn st"; cases "fetch_search w qn st")
     (auto simp: prefix_rows_def split: sum.splits prod.splits if_splits)

lemma hybrid_rows_found:
  assumes "fst (hybrid_rows w p u st) = Inr (cands, ctx)"
  shows "\<exists>rows ex. fst (if u then fetch_range_enumeration w p st else fetch_search w p st)
             = Inr rows
           \<and> extract_candidates_from_items rows = Inr ex
           \<and> cands = filter_by_hts_prefix ex p"
  using assms
  by (cases u; cases "fetch_range_enumeration w p st"; cases "fetch_search w p st")
     (auto simp: hybrid_rows_def split: sum.splits prod.splits if_splits exn.splits)

lemma lookup_hts_found:
  assumes "fst (lookup_hts w q n u st) = Inr r" and "mode r \<noteq> ''error''"
  shows "mode r \<in> {''exact_hts'', ''hts_range'', ''hts_prefix''}
     \<and> (\<exists>cands ctx. fst (prefix_rows w (normalize_hts_input q) u st) = Inr (cands, ctx)
           \<and> count r = length (dedupe_candidates cands)
           \<and> candidates r = slice_to n (dedupe_candidates cands))"
  using assms
  by (cases "prefix_rows w (normalize_hts_input q) u st")
     (auto simp: lookup_hts_def Let_def split: sum.splits prod.splits if_splits
        dest: on_api_error_mode)

lemma lookup_hybrid_found:
  assumes "fst (lookup_hybrid w p k n u st) = Inr r" and "mode r \<noteq> ''error''"
  shows "mode r = ''hybrid''
     \<and> (\<exists>cands ctx. fst (hybrid_rows w p u st) = Inr (cands, ctx)
           \<and> count r = length (dedupe_candidates (filter_by_keyword cands k))
           \<and> candidates r = slice_to n (dedupe_candidates (filter_by_keyword cands k)))"
  using assms
  by (cases "hybrid_rows w p u st")
     (auto simp: lookup_hybrid_def Let_def split: sum.splits prod.splits dest: on_api_error_mode)

lemma keyword_case:
  assumes "fst (lookup_keyword w (strip q0) n st) = Inr r" and "mode r \<noteq> ''error''"
  shows "\<exists>cands. found_candidates w q0 u st r cands \<and> counted n r cands"
proof -
  from lookup_keyword_found[OF assms] obtain rows cands where
    m: "mode r = ''keyword''" and f: "fst (fetch_search w (strip q0) st) = Inr rows"
    and e: "extract_candidates_from_items rows = Inr cands"
    and c: "counted n r cands"
    unfolding counted_def by blast
  have "found_candidates w q0 u st r cands"
    unfolding found_candidates_def using m f e by auto
  with c show ?thesis by blast
qed

lemma hts_case:
  assumes "fst (lookup_hts w (strip q0) n u st) = Inr r" and "mode r \<noteq> ''error''"
  shows "\<exists>cands. found_candidates w q0 u st r cands \<and> counted n r cands"
proof -
  from lookup_hts_found[OF assms] obtain cands ctx where
    m: "mode r \<in> {''exact_hts'', ''hts_range'', ''hts_prefix''}"
    and p: "fst (prefix_rows w (normalize_hts_input (strip q0)) u st) = Inr (cands, ctx)"
    and c: "counted n r cands"
    unfolding counted_def by blast
  from prefix_rows_found[OF p] m have "found_candidates w q0 u st r cands"
    unfolding found_candidates_def by auto
  with c show ?thesis by blast
qed

lemma hybrid_case:
  assumes "fst (lookup_hybrid w p k n u st) = Inr r" and "mode r \<noteq> ''error''"
    and "parse_hybrid_query (strip q0) = (Some p, Some k)"
  shows "\<exists>cands. found_candidates w q0 u st r cands \<and> counted n r cands"
proof -
  from lookup_hybrid_found[OF assms(1,2)] obtain cands ctx where
    m: "mode r = ''hybrid''"
    and h: "fst (hybrid_rows w p u st) = Inr (cands, ctx)"
    and c: "counted n r (filter_by_keyword cands k)"
    unfolding counted_def by blast
  from hybrid_rows_found[OF h] obtain rows ex where
    "fst (if u then fetch_range_enumeration w p st else fetch_search w p st) = Inr rows"
    "extract_candidates_from_items rows = Inr ex" "cands = filter_by_hts_prefix ex p"
    by blast
  with m assms(3) have "found_candidates w q0 u st r (filter_by_keyword cands k)"
    unfolding found_candidates_def by auto
  with c show ?thesis by blast
qed

lemma empty_case:
  "found_candidates w q0 u st \<lparr>mode = ''empty'', query = [], count = 0, candidates = [],
              context_rows = None, lookup_error = None\<rparr> []
   \<and> counted n \<lparr>mode = ''empty'', query = [], count = 0, candidates = [],
              context_rows = None, lookup_error = None\<rparr> []"
  by (simp add: found_candidates_def counted_def dedupe_candidates_def slice_to_def)

lemma mapping_lookup_found:
  assumes "fst (mapping_lookup w q0 n u st) = Inr r" and "mode r \<noteq> ''error''"
  shows "\<exists>cands. found_candidates w q0 u st r cands \<and> counted n r cands"
proof (cases "strip q0 = []")
  case True
  with assms(1) empty_case[of w q0 u st n] show ?thesis
    by (auto simp: mapping_lookup_def)
next
  case False
  show ?thesis
  proof (cases "\<exists>p k. parse_hybrid_query (strip q0) = (Some p, Some k) \<and> p \<noteq> [] \<and> k \<noteq> []")
    case True
    then obtain p k where pk: "parse_hybrid_query (strip q0) = (Some p, Some k)" "p \<noteq> []" "k \<noteq> []"
      by blast
    with False assms(1) have "fst (lookup_hybrid w p k n u st) = Inr r"
      by (simp add: mapping_lookup_def Let_def)
    from hybrid_case[OF this assms(2) pk(1)] show ?thesis .
  next
    case nohyb: False
    show ?thesis
    proof (cases "is_hts_like (strip q0)")
      case True
      with False nohyb assms(1) have "fst (lookup_hts w (strip q0) n u st) = Inr r"
        by (auto simp: mapping_lookup_def Let_def split: prod.splits option.splits if_splits)
      from hts_case[OF this assms(2)] show ?thesis .
    next
      case nolike: False
      with False nohyb assms(1) have "fst (lookup_keyword w (strip q0) n st) = Inr r"
        by (auto simp: mapping_lookup_def Let_def split: prod.splits option.splits if_splits)
      from keyword_case[OF this assms(2)] show ?thesis .
    qed
  qed
qed

text \<open>
  C9 (as amended). For every query and every \<open>max_results\<close> that is not negative, a
  result of \<open>mapping_lookup\<close> that is not an error holds at most \<open>max_results\<close>
  candidates. Its \<open>count\<close> is the number of candidates the lookup extracted from the
  rows of the service (and filtered), once deduplicated and before truncation; the
  candidates returned are the first \<open>max_results\<close> of that deduplicated list; so
  \<open>count\<close> exceeds the number of candidates returned whenever more than
  \<open>max_results\<close> exist.
\<close>

theorem lookup_truncation:
  assumes "0 \<le> max_results" and "fst (mapping_lookup w q max_results u st) = Inr r"
    and "mode r \<noteq> ''error''"
  shows "int (length (candidates r)) \<le> max_results
     \<and> (\<exists>cands. found_candidates w q u st r cands
              \<and> count r = length (dedupe_candidates cands)
              \<and> distinct (map htsno (dedupe_candidates cands))
              \<and> candidates r = take (nat max_results) (dedupe_candidates cands))
     \<and> (max_results < int (count r) \<longrightarrow> length (candidates r) < count r)"
proof -
  from mapping_lookup_found[OF assms(2,3)] obtain cands where
    f: "found_candidates w q u st r cands"
    and c: "count r = length (dedupe_candidates cands)"
    and t: "candidates r = slice_to max_results (dedupe_candidates cands)"
    unfolding counted_def by blast
  show ?thesis
    using f c t dedupe_distinct[of cands] slice_to_take[OF assms(1), of "dedupe_candidates cands"]
      slice_to_length[OF assms(1), of "dedupe_candidates cands"]
      slice_to_shorter[OF assms(1), of "dedupe_candidates cands"]
    by auto
qed


lemma two_world_one:
  "fst (mapping_lookup two_world ''coffee'' 1 True net0)
     = Inr \<lparr>mode = ''keyword'', query = ''coffee'', count = 2,
            candidates = [\<lparr>htsno = ''0901.11.00'', description = ''Coffee, not roasted''\<rparr>],
            context_rows = None, lookup_error = None\<rparr>"
  by code_simp

theorem lookup_truncation_witness:
  "\<exists>r. fst (mapping_lookup two_world ''coffee'' 1 True net0) = Inr r \<and> mode r \<noteq> ''error''
      \<and> int (length (candidates r)) \<le> 1 \<and> 1 < int (count r)
      \<and> length (candidates r) < count r
      \<and> (\<exists>cands. found_candidates two_world ''coffee'' True net0 r cands
             \<and> count r = length (dedupe_candidates cands)
             \<and> candidates r = take (nat 1) (dedupe_candidates cands))"
proof -
  let ?r = "\<lparr>mode = ''keyword'', query = ''coffee'', count = 2,
            candidates = [\<lparr>htsno = ''0901.11.00'', description = ''Coffee, not roasted''\<rparr>],
            context_rows = None, lookup_error = None\<rparr>"
  have m: "mode ?r \<noteq> ''error''" by simp
  have c: "(1::int) < int (count ?r)" by simp
  have z: "(0::int) \<le> 1" by simp
  note t = lookup_truncation [OF z two_world_one m]
  from t c have a: "int (length (candidates ?r)) \<le> 1 \<and> length (candidates ?r) < count ?r"
    by blast
  from t have b: "\<exists>cands. found_candidates two_world ''coffee'' True net0 ?r cands
             \<and> count ?r = length (dedupe_candidates cands)
             \<and> candidates ?r = take (nat 1) (dedupe_candidates cands)"
    by blast
  from two_world_one m c a b show ?thesis by blast
qed

text \<open>
  The claim as stated holds for no negative \<open>max_results\<close>: the slice
  \<open>cands[:max_results]\<close> then drops candidates from the end, and with \<open>max_results = -1\<close>
  and two candidates the result holds one candidate, more than \<open>max_results\<close>.
\<close>

theorem negative_max_results:
  "\<exists>r. fst (mapping_lookup two_world ''coffee'' (- 1) True net0) = Inr r
      \<and> mode r \<noteq> ''error'' \<and> count r = 2 \<and> length (candidates r) = 1
      \<and> \<not> int (length (candidates r)) \<le> - 1"
proof -
  have "fst (mapping_lookup two_world ''coffee'' (- 1) True net0)
     = Inr \<lparr>mode = ''keyword'', query = ''coffee'', count = 2,
            candidates = [\<lparr>htsno = ''0901.11.00'', description = ''Coffee, not roasted''\<rparr>],
            context_rows = None, lookup_error = None\<rparr>"
    by code_simp
  then show ?thesis by simp
qed

section \<open>The result store\<close>

lemma map_of_put_if: "map_of (put_if b k v d) = (if b then (map_of d)(k \<mapsto> v) else map_of d)"
  by (simp add: put_if_def update_conv')

lemma map_of_compact_rates:
  "map_of (compact_rates view fs c) f
     = (if f \<in> set fs \<and> rate_present (dict_get view f JNull)
        then Some (dict_get view f JNull) else map_of c f)"
  by (induction fs arbitrary: c) (auto simp: Let_def map_of_put_if)

lemma dict_get_empty: "dict_get [] k d = d"
  by (simp add: dict_get_def)

lemma compact_view_rate:
  assumes "f \<in> set rate_fields"
  shows "map_of (compact_view view c) f
     = (if rate_present (dict_get view f JNull) then Some (dict_get view f JNull) else map_of c f)"
proof (cases "view = []")
  case True
  then show ?thesis by (simp add: compact_view_def dict_get_empty)
next
  case False
  from assms have "f \<noteq> ''units''" "f \<noteq> ''footnotes''" "f \<noteq> ''quotaQuantity''"
    "f \<noteq> ''additionalDuties''"
    by (auto simp: rate_fields_def)
  with False assms show ?thesis
    by (simp add: compact_view_def Let_def map_of_put_if map_of_compact_rates)
qed

lemma compact_view_units:
  "map_of (compact_view view c) ''units''
     = (if py_truthy (dict_get view ''units'' JNull) then Some (dict_get view ''units'' JNull)
        else map_of c ''units'')"
  by (simp add: compact_view_def Let_def map_of_put_if map_of_compact_rates rate_fields_def
      dict_get_empty)

lemma compact_view_code: "map_of (compact_view view c) ''hts_code'' = map_of c ''hts_code''"
  by (simp add: compact_view_def Let_def map_of_put_if map_of_compact_rates rate_fields_def)

lemma to_compact_dict_fields:
  assumes "to_compact_dict r = Inr compact"
  shows "map_of compact ''hts_code'' = Some (hts_code r)"
    and "f \<in> set rate_fields \<Longrightarrow> map_of compact f
       = (if rate_present (dict_get (resolved_view r) f JNull)
          then Some (dict_get (resolved_view r) f JNull) else None)"
    and "map_of compact ''units''
       = (if py_truthy (dict_get (resolved_view r) ''units'' JNull)
          then Some (dict_get (resolved_view r) ''units'' JNull) else None)"
proof -
  define base where "base = [(''hts_code'', hts_code r),
      (''effective_hts_code'', effective_hts_code r), (''fallback_chain'', fallback_chain r)]"
  from assms consider
    (plain) "compact = compact_view (resolved_view r) base"
    | (described) b dv where
        "compact = compact_view (resolved_view r) (put_if b ''description'' dv base)"
    by (auto simp: to_compact_dict_def Let_def base_def
        split: if_splits option.splits sum.splits)
  then obtain c1 where c: "compact = compact_view (resolved_view r) c1"
    and h: "map_of c1 ''hts_code'' = Some (hts_code r)"
    and u: "map_of c1 ''units'' = None"
    and g: "\<And>f. f \<in> set rate_fields \<Longrightarrow> map_of c1 f = None"
  proof cases
    case plain
    show ?thesis
      by (rule that[OF plain]) (auto simp: base_def rate_fields_def)
  next
    case described
    show ?thesis
      by (rule that[OF described]) (auto simp: base_def rate_fields_def map_of_put_if)
  qed
  show "map_of compact ''hts_code'' = Some (hts_code r)"
    by (simp add: c compact_view_code h)
  show "map_of compact ''units''
       = (if py_truthy (dict_get (resolved_view r) ''units'' JNull)
          then Some (dict_get (resolved_view r) ''units'' JNull) else None)"
    by (simp add: c compact_view_units u)
  show "f \<in> set rate_fields \<Longrightarrow> map_of compact f
       = (if rate_present (dict_get (resolved_view r) f JNull)
          then Some (dict_get (resolved_view r) f JNull) else None)"
    by (simp add: c compact_view_rate g)
qed

lemma map_of_copy_fields:
  "map_of (copy_fields sd fs acc) f
     = (if f \<in> set fs \<and> map_of sd f \<noteq> None then map_of sd f else map_of acc f)"
  by (induction fs arbitrary: acc) (auto simp: update_conv' split: option.splits)

lemma store_set_new: "\<not> store_has sr k \<Longrightarrow> store_set sr k v = sr @ [(k, v)]"
  by (induction sr) auto

lemma dumped_last:
  "dumped (sr @ [(k, v)]) = JDict d \<Longrightarrow> map_of d (json_key k) = Some v"
  by (auto simp: dumped_def update_conv')

lemma store_lookup_strings:
  "store_lookup (map (\<lambda>(k, v). (JStr k, v)) d) (JStr x) = map_of d x"
  by (induction d) auto

lemma store_has_strings:
  "store_has (map (\<lambda>(k, v). (JStr k, v)) d) (JStr x) = (map_of d x \<noteq> None)"
  by (induction d) auto

lemma save_written:
  assumes "save_result_to_json r wo file = (Inr True, file')" and "hts_code r = JStr x"
  shows "\<exists>d compact. file' = Parsed (JDict d) \<and> map_of d x = Some (JDict compact)
           \<and> to_compact_dict r = Inr compact \<and> \<not> py_truthy (error_message r)"
proof -
  from assms obtain sr compact where
    l: "load_stored_results file = Inr sr" and n: "\<not> store_has sr (JStr x)"
    and c: "to_compact_dict r = Inr compact" and e: "\<not> py_truthy (error_message r)"
    and f: "file' = Parsed (dumped (store_set sr (JStr x) (JDict compact)))"
    by (auto simp: save_result_to_json_def split: if_splits sum.splits write_outcome.splits)
  obtain d where d: "dumped (sr @ [(JStr x, JDict compact)]) = JDict d"
    by (simp add: dumped_def)
  from dumped_last[OF d] have "map_of d x = Some (JDict compact)" by simp
  with f d store_set_new[OF n] c e show ?thesis by simp
qed

text \<open>
  A result without error message whose code is not in the store yet is written, unless its
  description cannot be cleaned or the write fails.
\<close>

lemma save_new:
  assumes "\<not> py_truthy (error_message r)" and "hts_code r = JStr x"
    and "load_stored_results file = Inr sr" and "\<not> store_has sr (JStr x)"
    and "to_compact_dict r = Inr compact"
  shows "save_result_to_json r Written file
           = (Inr True, Parsed (dumped (store_set sr (JStr x) (JDict compact))))"
  using assms by (simp add: save_result_to_json_def)

lemma search_result_code:
  "\<exists>c. hts_code (fst (search_hts_quantitative_details w code st)) = JStr c"
  unfolding search_hts_quantitative_details_def search_body_def resolve_found_def Let_def
    not_found_def new_result_def
  by (auto split: if_splits prod.splits sum.splits exn.splits option.splits)

lemma rebuild_view:
  "map_of sd ''hts_code'' = Some c \<Longrightarrow>
     \<exists>sv. rebuild sd = Some sv \<and> resolved_view sv = copy_fields sd view_fields []"
  by (simp add: rebuild_def)


text \<open>
  The compact entry of a result is built without an exception when the description of its
  requested line is a string or absent.
\<close>

lemma clean_default_typed:
  "str_or_none (dict_get item k JNull) \<Longrightarrow> \<exists>t. clean_text (dict_get item k (JStr [])) = Inr t"
  by (auto simp: dict_get_def clean_text_def split: option.splits jval.splits)

lemma to_compact_dict_typed:
  assumes "description_typed r"
  shows "\<exists>compact. to_compact_dict r = Inr compact"
proof (cases "requested_line r")
  case None
  then show ?thesis by (simp add: to_compact_dict_def Let_def)
next
  case (Some line)
  with assms have "str_or_none (dict_get line ''description'' JNull)"
    by (simp add: description_typed_def)
  from clean_default_typed[OF this] obtain t where
    "clean_text (dict_get line ''description'' (JStr [])) = Inr t" by blast
  with Some show ?thesis by (simp add: to_compact_dict_def Let_def)
qed

text \<open>
  C7 (as amended). Take a result for code \<open>x\<close> that carries no error message and whose
  description is a string or absent, and a results file that can be read and does not
  hold \<open>x\<close> yet. Saving it succeeds, and reading the store back gives a view with the
  \<open>general\<close>, \<open>special\<close>, \<open>other\<close> and \<open>units\<close> values of the resolved view at write
  time that were not blank: a rate is there exactly when it was truthy and not blank, the
  units exactly when they were truthy, each with the value it had; a blank rate and empty
  units are absent from the view read back. A second save for the same code returns
  \<open>False\<close> and leaves the file as it is. A result with an error message is never stored,
  and a code found in the store is never written again.
\<close>

theorem store_round_trip:
  assumes ok: "\<not> py_truthy (error_message r)" and code: "hts_code r = JStr x"
    and desc: "description_typed r"
    and load: "load_stored_results file = Inr sr" and fresh: "\<not> store_has sr (JStr x)"
  shows "(\<exists>file' sv. save_result_to_json r Written file = (Inr True, file')
            \<and> get_stored_result (JStr x) file' = Inr (Some sv)
            \<and> (\<forall>f \<in> set rate_fields.
                  map_of (resolved_view sv) f
                    = (if rate_present (dict_get (resolved_view r) f JNull)
                       then Some (dict_get (resolved_view r) f JNull) else None))
            \<and> map_of (resolved_view sv) ''units''
                = (if py_truthy (dict_get (resolved_view r) ''units'' JNull)
                   then Some (dict_get (resolved_view r) ''units'' JNull) else None)
            \<and> (\<forall>r' wo'. hts_code r' = JStr x
                  \<longrightarrow> save_result_to_json r' wo' file' = (Inr False, file')))
     \<and> (\<forall>e wo' file0. py_truthy (error_message e)
           \<longrightarrow> save_result_to_json e wo' file0 = (Inr False, file0))
     \<and> (\<forall>r0 wo' file0 sr0. load_stored_results file0 = Inr sr0 \<and> hashable (hts_code r0)
            \<and> store_has sr0 (hts_code r0)
           \<longrightarrow> save_result_to_json r0 wo' file0 = (Inr False, file0))"
proof -
  from to_compact_dict_typed[OF desc] obtain compact0 where
    c0: "to_compact_dict r = Inr compact0" by blast
  let ?f = "Parsed (dumped (store_set sr (JStr x) (JDict compact0)))"
  have saved: "save_result_to_json r Written file = (Inr True, ?f)"
    by (rule save_new[OF ok code load fresh c0])
  from save_written[OF saved code] obtain d compact where
    f: "?f = Parsed (JDict d)" and m: "map_of d x = Some (JDict compact)"
    and c: "to_compact_dict r = Inr compact"
    by blast
  note fields = to_compact_dict_fields[OF c]
  from rebuild_view[OF fields(1)] obtain sv where
    sv: "rebuild compact = Some sv" and v: "resolved_view sv = copy_fields compact view_fields []"
    by blast
  have get: "get_stored_result (JStr x) ?f = Inr (Some sv)"
    unfolding f
    by (simp add: get_stored_result_def load_stored_results_def store_lookup_strings m sv)
  have rates: "\<forall>f \<in> set rate_fields.
                  map_of (resolved_view sv) f
                    = (if rate_present (dict_get (resolved_view r) f JNull)
                       then Some (dict_get (resolved_view r) f JNull) else None)"
  proof
    fix g assume g: "g \<in> set rate_fields"
    then have "g \<in> set view_fields" by (auto simp: rate_fields_def view_fields_def)
    then show "map_of (resolved_view sv) g
                    = (if rate_present (dict_get (resolved_view r) g JNull)
                       then Some (dict_get (resolved_view r) g JNull) else None)"
      by (simp add: v map_of_copy_fields fields(2)[OF g])
  qed
  have units: "map_of (resolved_view sv) ''units''
                = (if py_truthy (dict_get (resolved_view r) ''units'' JNull)
                   then Some (dict_get (resolved_view r) ''units'' JNull) else None)"
  proof -
    have "''units'' \<in> set view_fields" by (simp add: view_fields_def)
    then show ?thesis by (simp add: v map_of_copy_fields fields(3))
  qed
  have again: "\<forall>r' wo'. hts_code r' = JStr x
           \<longrightarrow> save_result_to_json r' wo' ?f = (Inr False, ?f)"
    unfolding f
    by (simp add: save_result_to_json_def load_stored_results_def store_has_strings m)
  have errors: "\<forall>e wo' file0. py_truthy (error_message e)
           \<longrightarrow> save_result_to_json e wo' file0 = (Inr False, file0)"
    by (simp add: save_result_to_json_def)
  have kept: "\<forall>r0 wo' file0 sr0. load_stored_results file0 = Inr sr0 \<and> hashable (hts_code r0)
            \<and> store_has sr0 (hts_code r0)
           \<longrightarrow> save_result_to_json r0 wo' file0 = (Inr False, file0)"
    by (auto simp: save_result_to_json_def)
  from saved get rates units again errors kept show ?thesis by blast
qed

theorem store_round_trip_witness:
  "\<exists>file' sv. save_result_to_json coffee_result Written NoFile = (Inr True, file')
      \<and> get_stored_result (JStr ''0901.21.00.00'') file' = Inr (Some sv)
      \<and> map_of (resolved_view sv) ''general'' = Some (JStr ''Free'')
      \<and> map_of (resolved_view sv) ''units'' = Some (JList [JStr ''kg''])
      \<and> save_result_to_json coffee_result Written file' = (Inr False, file')"
proof -
  have ok: "\<not> py_truthy (error_message coffee_result)" by code_simp
  have code: "hts_code coffee_result = JStr ''0901.21.00.00''" by code_simp
  have desc: "description_typed coffee_result" by code_simp
  have load: "load_stored_results NoFile = Inr []" by code_simp
  have fresh: "\<not> store_has [] (JStr ''0901.21.00.00'')" by simp
  have g: "''general'' \<in> set rate_fields" by (simp add: rate_fields_def)
  have gv: "rate_present (dict_get (resolved_view coffee_result) ''general'' JNull)"
    and gw: "dict_get (resolved_view coffee_result) ''general'' JNull = JStr ''Free''"
    and uv: "py_truthy (dict_get (resolved_view coffee_result) ''units'' JNull)"
    and uw: "dict_get (resolved_view coffee_result) ''units'' JNull = JList [JStr ''kg'']"
    by code_simp+
  from store_round_trip [OF ok code desc load fresh] obtain f v where
    saved: "save_result_to_json coffee_result Written NoFile = (Inr True, f)"
    and get: "get_stored_result (JStr ''0901.21.00.00'') f = Inr (Some v)"
    and rates: "\<forall>f \<in> set rate_fields.
        map_of (resolved_view v) f
          = (if rate_present (dict_get (resolved_view coffee_result) f JNull)
             then Some (dict_get (resolved_view coffee_result) f JNull) else None)"
    and units: "map_of (resolved_view v) ''units''
          = (if py_truthy (dict_get (resolved_view coffee_result) ''units'' JNull)
             then Some (dict_get (resolved_view coffee_result) ''units'' JNull) else None)"
    and again: "\<forall>r' wo'. hts_code r' = JStr ''0901.21.00.00''
          \<longrightarrow> save_result_to_json r' wo' f = (Inr False, f)"
    by blast
  from rates g gv gw have 1: "map_of (resolved_view v) ''general'' = Some (JStr ''Free'')"
    by simp
  from units uv uw have 3: "map_of (resolved_view v) ''units'' = Some (JList [JStr ''kg''])"
    by simp
  from again code have 4: "save_result_to_json coffee_result Written f = (Inr False, f)"
    by blast
  from saved get 1 3 4 show ?thesis by blast
qed

text \<open>
  The claim as stated fails for a value that is present but blank. The resolved view of
  \<open>coffee_result\<close> holds \<open>special = ""\<close>, taken from the requested row; the compact entry
  leaves it out, so the view read back has no \<open>special\<close> field at all, while its
  \<open>general\<close> rate is the one that was written.
\<close>

theorem blank_rate_dropped:
  "fst (save_result_to_json coffee_result Written NoFile) = Inr True
   \<and> map_of (resolved_view coffee_result) ''special'' = Some (JStr [])
   \<and> (case get_stored_result (JStr ''0901.21.00.00'')
              (snd (save_result_to_json coffee_result Written NoFile)) of
         Inr (Some sv) \<Rightarrow> map_of (resolved_view sv) ''special'' = None
                           \<and> map_of (resolved_view sv) ''general'' = Some (JStr ''Free'')
       | _ \<Rightarrow> False)"
  by code_simp

section \<open>The range of a prefix\<close>

lemma pointwise_le: "list_all2 (\<le>) xs ys \<Longrightarrow> xs \<le> (ys :: string)"
  by (induction xs ys rule: list_all2_induct) auto

lemma ten_elements:
  "length (x :: 'a list) = 10 \<Longrightarrow> \<exists>a b c d e f g h i j. x = [a, b, c, d, e, f, g, h, i, j]"
  by (auto simp: eval_nat_numeral length_Suc_conv)

lemma format_ten:
  "format_hts [a, b, c, d, e, f, g, h, i, j]
     = [a, b, c, d, CHR ''.'', e, f, CHR ''.'', g, h, CHR ''.'', i, j]"
  by (simp add: format_hts_def slice_def)

lemma format_pointwise:
  assumes "length x = 10" and "length y = 10" and "list_all2 (\<le>) x y"
  shows "list_all2 (\<le>) (format_hts x) (format_hts y)"
proof -
  from ten_elements[OF assms(1)] obtain a b c d e f g h i j where
    x: "x = [a, b, c, d, e, f, g, h, i, j]" by blast
  from ten_elements[OF assms(2)] obtain a' b' c' d' e' f' g' h' i' j' where
    y: "y = [a', b', c', d', e', f', g', h', i', j']" by blast
  from assms(3) show ?thesis unfolding x y format_ten by simp
qed

lemma decimal_bounds: "is_decimal c \<Longrightarrow> CHR ''0'' \<le> c \<and> c \<le> CHR ''9''"
  unfolding is_decimal_def by (auto simp: less_eq_char_def)

lemma decimal_no_dot: "is_decimal c \<Longrightarrow> c \<noteq> CHR ''.''"
  unfolding is_decimal_def by auto

lemma zeros_below: "list_all is_decimal r \<Longrightarrow> list_all2 (\<le>) (replicate (length r) CHR ''0'') r"
  by (induction r) (auto dest: decimal_bounds)

lemma nines_above: "list_all is_decimal r \<Longrightarrow> list_all2 (\<le>) r (replicate (length r) CHR ''9'')"
  by (induction r) (auto dest: decimal_bounds)

lemma decimal_no_blank: "is_decimal c \<Longrightarrow> c \<noteq> CHR '' ''"
  unfolding is_decimal_def by auto

lemma decimal_not_space: "is_decimal c \<Longrightarrow> \<not> py_isspace c"
  unfolding is_decimal_def py_isspace_def by auto

lemma filter_dropWhile:
  "(\<And>c. P c \<Longrightarrow> \<not> Q c) \<Longrightarrow> filter Q (dropWhile P xs) = filter Q xs"
  by (induction xs) auto

lemma filter_rev_dropWhile:
  assumes "\<And>c. P c \<Longrightarrow> \<not> Q c"
  shows "filter Q (rev (dropWhile P (rev xs))) = filter Q xs"
proof -
  have "filter Q (rev (dropWhile P (rev xs))) = rev (filter Q (dropWhile P (rev xs)))"
    by (simp add: rev_filter)
  also have "\<dots> = rev (filter Q (rev xs))"
    by (simp add: filter_dropWhile[of P Q, OF assms])
  also have "\<dots> = filter Q xs" by (simp add: rev_filter)
  finally show ?thesis .
qed

lemma digits_of_strip: "digits_of (strip p) = digits_of p"
proof -
  have "filter is_decimal (rev (dropWhile py_isspace (rev (dropWhile py_isspace p))))
      = filter is_decimal (dropWhile py_isspace p)"
    by (rule filter_rev_dropWhile) (auto dest: decimal_not_space)
  also have "\<dots> = filter is_decimal p"
    by (rule filter_dropWhile) (auto dest: decimal_not_space)
  finally show ?thesis by (simp add: digits_of_def strip_def lstrip_def rstrip_def)
qed

lemma set_strip: "set (strip p) \<subseteq> set p"
proof -
  have "set (strip p) = set (dropWhile py_isspace (rev (dropWhile py_isspace p)))"
    by (simp add: strip_def lstrip_def rstrip_def)
  also have "\<dots> \<subseteq> set (rev (dropWhile py_isspace p))"
    by (auto dest: set_dropWhileD)
  also have "\<dots> \<subseteq> set p" by (auto dest: set_dropWhileD)
  finally show ?thesis .
qed

text \<open>For a code-like prefix, the digits that \<open>build_hts_range\<close> works on are its digits.\<close>

lemma digits_of_code_like:
  assumes "code_like p"
  shows "remove_dots (normalize_hts_input p) = digits_of p"
proof -
  have "remove_dots (normalize_hts_input p)
      = filter (\<lambda>c. c \<noteq> CHR ''.'') (filter (\<lambda>c. c \<noteq> CHR '' '') (strip p))"
    unfolding remove_dots_def normalize_hts_input_def rstrip_dots_def remove_spaces_def
    by (rule filter_rev_dropWhile) simp
  also have "\<dots> = filter (\<lambda>c. c \<noteq> CHR '' '' \<and> c \<noteq> CHR ''.'') (strip p)"
    by simp
  also have "\<dots> = filter is_decimal (strip p)"
  proof (rule filter_cong[OF refl])
    fix c assume "c \<in> set (strip p)"
    with set_strip have "c \<in> set p" by blast
    with assms have "is_decimal c \<or> c = CHR ''.'' \<or> c = CHR '' ''"
      by (simp add: code_like_def list_all_iff)
    then show "(c \<noteq> CHR '' '' \<and> c \<noteq> CHR ''.'') = is_decimal c"
      by (auto dest: decimal_no_dot decimal_no_blank)
  qed
  also have "\<dots> = digits_of p" using digits_of_strip by (simp add: digits_of_def)
  finally show ?thesis .
qed

lemma upt_13: "[0..<13] = [0, 1, 2, 3, 4, 5, 6, 7, 8, 9, 10, 11, 12::nat]"
  by code_simp

lemma thirteen_elements:
  "length (x :: 'a list) = 13
     \<Longrightarrow> \<exists>a b c d e f g h i j k l m. x = [a, b, c, d, e, f, g, h, i, j, k, l, m]"
  by (auto simp: eval_nat_numeral length_Suc_conv)

text \<open>A full dotted code is the grouping of its ten digits.\<close>

lemma full_code_digits:
  assumes "full_code c"
  shows "length (digits_of c) = 10 \<and> list_all is_decimal (digits_of c)
       \<and> c = format_hts (digits_of c)"
proof -
  from assms have "length c = 13" by (simp add: full_code_def)
  from thirteen_elements[OF this] obtain a b d e f g h i j k l m n where
    c: "c = [a, b, d, e, f, g, h, i, j, k, l, m, n]" by blast
  from assms have "is_decimal a \<and> is_decimal b \<and> is_decimal d \<and> is_decimal e
      \<and> f = CHR ''.'' \<and> is_decimal g \<and> is_decimal h \<and> i = CHR ''.''
      \<and> is_decimal j \<and> is_decimal k \<and> l = CHR ''.'' \<and> is_decimal m \<and> is_decimal n"
    unfolding full_code_def c upt_13 by simp
  then show ?thesis
    unfolding c digits_of_def by (auto simp: format_ten dest: decimal_no_dot)
qed

lemma format_full:
  assumes "length x = 10" and "list_all is_decimal x"
  shows "full_code (format_hts x)"
proof -
  from ten_elements[OF assms(1)] obtain a b c d e f g h i j where
    x: "x = [a, b, c, d, e, f, g, h, i, j]" by blast
  from assms(2) show ?thesis
    unfolding x format_ten full_code_def upt_13 by simp
qed

lemma format_digits:
  assumes "length x = 10" and "list_all is_decimal x"
  shows "digits_of (format_hts x) = x"
proof -
  from ten_elements[OF assms(1)] obtain a b c d e f g h i j where
    x: "x = [a, b, c, d, e, f, g, h, i, j]" by blast
  from assms(2) show ?thesis
    unfolding x format_ten digits_of_def by (auto dest: decimal_no_dot)
qed

lemma rev_dropWhile_last:
  assumes "xs \<noteq> []" and "\<not> P (last xs)"
  shows "rev (dropWhile P (rev xs)) = xs"
proof -
  from assms(1) obtain ys y where xs: "xs = ys @ [y]"
    by (cases xs rule: rev_cases) auto
  with assms(2) have "\<not> P y" by simp
  then show ?thesis by (simp add: xs)
qed

lemma normalize_full_code:
  assumes "full_code c"
  shows "normalize_hts_input c = c"
proof -
  from full_code_digits[OF assms] have len: "length (digits_of c) = 10"
    and dec: "list_all is_decimal (digits_of c)" and c: "c = format_hts (digits_of c)"
    by simp_all
  from ten_elements[OF len] obtain a b d e f g h i j k where
    x: "digits_of c = [a, b, d, e, f, g, h, i, j, k]" by blast
  from c have c': "c = [a, b, d, e, CHR ''.'', f, g, CHR ''.'', h, i, CHR ''.'', j, k]"
    unfolding x format_ten .
  from dec have da: "is_decimal a" and dk: "is_decimal k" and all: "list_all is_decimal [a, b, d, e, f, g, h, i, j, k]"
    unfolding x by simp_all
  have ne: "c \<noteq> []" and hd: "hd c = a" and last: "last c = k"
    unfolding c' by simp_all
  have l: "lstrip c = c"
    unfolding lstrip_def c' using decimal_not_space[OF da] by simp
  have r: "rstrip c = c"
    unfolding rstrip_def
    by (rule rev_dropWhile_last[OF ne]) (simp add: last decimal_not_space[OF dk])
  have s: "strip c = c" by (simp add: strip_def l r)
  have "\<forall>x \<in> set c. x \<noteq> CHR '' ''"
    using all unfolding c' by (auto dest: decimal_no_blank)
  then have sp: "remove_spaces c = c"
    unfolding remove_spaces_def by (simp add: filter_id_conv)
  have rd: "rstrip_dots c = c"
    unfolding rstrip_dots_def
    by (rule rev_dropWhile_last[OF ne]) (simp add: last decimal_no_dot[OF dk])
  show ?thesis by (simp add: normalize_hts_input_def s sp rd)
qed

lemma remove_dots_digits:
  assumes "full_code c"
  shows "remove_dots c = digits_of c"
proof -
  from full_code_digits[OF assms] have len: "length (digits_of c) = 10"
    and dec: "list_all is_decimal (digits_of c)" and c: "c = format_hts (digits_of c)"
    by simp_all
  from ten_elements[OF len] obtain a b d e f g h i j k where
    x: "digits_of c = [a, b, d, e, f, g, h, i, j, k]" by blast
  from dec have "remove_dots (format_hts (digits_of c)) = digits_of c"
    unfolding x format_ten remove_dots_def by (simp add: decimal_no_dot)
  with c show ?thesis by simp
qed

lemma range_of_full_code:
  assumes "full_code c"
  shows "build_hts_range c = (c, c)"
proof -
  from full_code_digits[OF assms] have "length (digits_of c) = 10" by simp
  then show ?thesis
    by (simp add: build_hts_range_def Let_def normalize_full_code[OF assms]
        remove_dots_digits[OF assms])
qed

text \<open>
  C5 (as amended). For every prefix \<open>p\<close> made of digits, dots and spaces that has fewer
  than ten digits, and every full dotted code \<open>c\<close> whose digits start with the digits of
  \<open>p\<close>, \<open>build_hts_range p\<close> returns a pair of full dotted codes, the digits of \<open>p\<close>
  padded with zeros and with nines, and \<open>from \<le> c \<le> to\<close> holds lexicographically
  between these strings of the same group structure. A full dotted code given as the
  prefix is returned as both bounds.
\<close>

theorem range_covers_prefix:
  assumes full: "full_code c" and like: "code_like p"
    and short: "length (digits_of p) < 10"
    and pre: "prefix (digits_of p) (digits_of c)"
  shows "fst (build_hts_range p) \<le> c \<and> c \<le> snd (build_hts_range p)
     \<and> full_code (fst (build_hts_range p)) \<and> full_code (snd (build_hts_range p))
     \<and> digits_of (fst (build_hts_range p))
         = digits_of p @ replicate (10 - length (digits_of p)) CHR ''0''
     \<and> digits_of (snd (build_hts_range p))
         = digits_of p @ replicate (10 - length (digits_of p)) CHR ''9''
     \<and> build_hts_range c = (c, c)"
proof -
  define d where "d = digits_of p"
  define cd where "cd = digits_of c"
  from full_code_digits[OF full]
  have len: "length cd = 10" and dec: "list_all is_decimal cd" and c: "c = format_hts cd"
    by (simp_all add: cd_def)
  from pre obtain r where r: "cd = d @ r"
    unfolding d_def cd_def by (auto elim: prefixE)
  have dd: "remove_dots (normalize_hts_input p) = d"
    unfolding d_def by (rule digits_of_code_like[OF like])
  let ?n = "10 - length d"
  let ?lo = "d @ replicate ?n CHR ''0''"
  let ?hi = "d @ replicate ?n CHR ''9''"
  from len r have n: "?n = length r" by simp
  from dec r have decr: "list_all is_decimal r" and decd: "list_all is_decimal d" by simp_all
  from short have b: "build_hts_range p = (format_hts ?lo, format_hts ?hi)"
    by (simp add: build_hts_range_def Let_def dd d_def[symmetric])
  have llo: "length ?lo = 10" and lhi: "length ?hi = 10" using short by (simp_all add: d_def)
  have zero: "is_decimal CHR ''0''" and nine: "is_decimal CHR ''9''"
    by (simp_all add: is_decimal_def)
  have dlo: "list_all is_decimal ?lo" and dhi: "list_all is_decimal ?hi"
    using decd zero nine by (auto simp: list_all_iff)
  have plo: "list_all2 (\<le>) ?lo cd"
    unfolding r n by (intro list_all2_appendI list_all2_refl zeros_below[OF decr]) simp
  have phi: "list_all2 (\<le>) cd ?hi"
    unfolding r n by (intro list_all2_appendI list_all2_refl nines_above[OF decr]) simp
  have lo: "format_hts ?lo \<le> c"
    unfolding c by (rule pointwise_le[OF format_pointwise[OF llo len plo]])
  have hi: "c \<le> format_hts ?hi"
    unfolding c by (rule pointwise_le[OF format_pointwise[OF len lhi phi]])
  have flo: "full_code (format_hts ?lo)" by (rule format_full[OF llo dlo])
  have fhi: "full_code (format_hts ?hi)" by (rule format_full[OF lhi dhi])
  have glo: "digits_of (format_hts ?lo) = ?lo"
    using format_digits[OF llo dlo] by simp
  have ghi: "digits_of (format_hts ?hi) = ?hi"
    using format_digits[OF lhi dhi] by simp
  from b lo hi flo fhi glo ghi range_of_full_code[OF full] show ?thesis
    by (simp add: d_def)
qed

theorem range_covers_prefix_witness:
  "build_hts_range ''61'' = (''6100.00.00.00'', ''6199.99.99.99'')
   \<and> (''6100.00.00.00'' :: string) \<le> ''6109.10.00.12''
   \<and> (''6109.10.00.12'' :: string) \<le> ''6199.99.99.99''
   \<and> build_hts_range ''6109.10.00.12'' = (''6109.10.00.12'', ''6109.10.00.12'')"
proof -
  have full: "full_code ''6109.10.00.12''" by code_simp
  have like: "code_like ''61''" by code_simp
  have short: "length (digits_of ''61'') < 10" by code_simp
  have pre: "prefix (digits_of ''61'') (digits_of ''6109.10.00.12'')" by code_simp
  have b: "build_hts_range ''61'' = (''6100.00.00.00'', ''6199.99.99.99'')" by code_simp
  note t = range_covers_prefix [OF full like short pre]
  from t have "fst (build_hts_range ''61'') \<le> ''6109.10.00.12''
      \<and> ''6109.10.00.12'' \<le> snd (build_hts_range ''61'')
      \<and> build_hts_range ''6109.10.00.12'' = (''6109.10.00.12'', ''6109.10.00.12'')"
    by blast
  with b show ?thesis by simp
qed

text \<open>
  The claim as stated fails for some prefixes. A prefix of ten digits is returned as it
  was typed: for \<open>"8471300000"\<close> the lower bound is the undotted string, which is above
  the dotted code \<open>"8471.30.00.00"\<close> with the same digits. White space other than the
  space is not removed inside a prefix: for \<open>6-TAB-1\<close>, whose digits are \<open>61\<close>, the upper
  bound starts with \<open>6-TAB\<close> and is below \<open>"6109.10.00.12"\<close>.
\<close>

theorem range_misses_code:
  "full_code ''8471.30.00.00''
   \<and> prefix (digits_of ''8471300000'') (digits_of ''8471.30.00.00'')
   \<and> build_hts_range ''8471300000'' = (''8471300000'', ''8471300000'')
   \<and> \<not> (''8471300000'' :: string) \<le> ''8471.30.00.00''
   \<and> full_code ''6109.10.00.12''
   \<and> prefix (digits_of tab_prefix) (digits_of ''6109.10.00.12'')
   \<and> \<not> ''6109.10.00.12'' \<le> snd (build_hts_range tab_prefix)"
  by code_simp

end
